theory Spec2Isabelle
  imports Main "HOL-Library.Word"
begin

section \<open>JavaScript strings and the string methods the client uses\<close>

text \<open>
  A JavaScript string is a sequence of UTF-16 code units. String literals of the source
  are ASCII; \<open>js\<close> embeds such a literal.
\<close>

type_synonym code_unit = "16 word"
type_synonym jsstring = "code_unit list"
type_synonym byte = "8 word"

definition js :: "string \<Rightarrow> jsstring" where
  "js s = map of_char s"

text \<open>\<open>s.startsWith(p)\<close>.\<close>

definition startsWith :: "jsstring \<Rightarrow> jsstring \<Rightarrow> bool" where
  "startsWith s p = (take (length p) s = p)"

text \<open>
  \<open>s.split(sep)\<close> for a string separator: the pieces between the non-overlapping
  occurrences of \<open>sep\<close>, found from left to right; an empty separator splits into
  single code units.
\<close>

function split_from :: "jsstring \<Rightarrow> jsstring \<Rightarrow> jsstring \<Rightarrow> jsstring list" where
  "split_from sep cur s =
     (if s = [] then [cur]
      else if sep \<noteq> [] \<and> startsWith s sep
        then cur # split_from sep [] (drop (length sep) s)
      else split_from sep (cur @ [hd s]) (tl s))"
  by pat_completeness auto
termination
  by (relation "measure (\<lambda>(sep, cur, s). length s)") auto

definition split :: "jsstring \<Rightarrow> jsstring \<Rightarrow> jsstring list" where
  "split s sep = (if sep = [] then map (\<lambda>c. [c]) s else split_from sep [] s)"

text \<open>
  \<open>s.trim()\<close> removes white space and line terminators from both ends: TAB, LF, VT, FF,
  CR, SP, NBSP, U+1680, U+2000 to U+200A, U+2028, U+2029, U+202F, U+205F, U+3000, U+FEFF.
\<close>

definition is_space :: "code_unit \<Rightarrow> bool" where
  "is_space c \<longleftrightarrow>
     c \<in> {0x9, 0xA, 0xB, 0xC, 0xD, 0x20, 0xA0, 0x1680, 0x2028, 0x2029, 0x202F, 0x205F,
          0x3000, 0xFEFF}
     \<or> (0x2000 \<le> c \<and> c \<le> 0x200A)"

definition trim :: "jsstring \<Rightarrow> jsstring" where
  "trim s = rev (dropWhile is_space (rev (dropWhile is_space s)))"

text \<open>\<open>s.replace(pat, rep)\<close> with a string pattern: only the first occurrence.\<close>

fun replace :: "jsstring \<Rightarrow> jsstring \<Rightarrow> jsstring \<Rightarrow> jsstring" where
  "replace [] pat rep = (if pat = [] then rep else [])"
| "replace (c # cs) pat rep =
     (if startsWith (c # cs) pat then rep @ drop (length pat) (c # cs)
      else c # replace cs pat rep)"

text \<open>\<open>s.slice(a)\<close> and \<open>s.slice(a, b)\<close> for the non-negative constants of the source.\<close>

definition slice_from :: "jsstring \<Rightarrow> nat \<Rightarrow> jsstring" where
  "slice_from s a = drop a s"

definition slice :: "jsstring \<Rightarrow> nat \<Rightarrow> nat \<Rightarrow> jsstring" where
  "slice s a b = take (b - a) (drop a s)"

section \<open>Hexadecimal buffers\<close>

text \<open>
  \<open>Buffer.from(s, "hex")\<close> reads pairs of hexadecimal digits and stops at the first pair
  that is not one; \<open>buf.toString("hex")\<close> writes two lower-case digits per byte.
\<close>

definition hex_digit :: "code_unit \<Rightarrow> nat option" where
  "hex_digit c =
     (if 0x30 \<le> c \<and> c \<le> 0x39 then Some (unat c - 0x30)
      else if 0x61 \<le> c \<and> c \<le> 0x66 then Some (unat c - 0x61 + 10)
      else if 0x41 \<le> c \<and> c \<le> 0x46 then Some (unat c - 0x41 + 10)
      else None)"

fun Buffer_from_hex :: "jsstring \<Rightarrow> byte list" where
  "Buffer_from_hex (a # b # cs) =
     (case (hex_digit a, hex_digit b) of
        (Some h, Some l) \<Rightarrow> of_nat (16 * h + l) # Buffer_from_hex cs
      | _ \<Rightarrow> [])"
| "Buffer_from_hex _ = []"

definition hex_char :: "nat \<Rightarrow> code_unit" where
  "hex_char d = (if d < 10 then of_nat (0x30 + d) else of_nat (0x61 + d - 10))"

definition toString_hex :: "byte list \<Rightarrow> jsstring" where
  "toString_hex bs = concat (map (\<lambda>b. [hex_char (unat b div 16), hex_char (unat b mod 16)]) bs)"

section \<open>The data model\<close>

text \<open>Function values of the configuration are opaque: only their identity is kept.\<close>

type_synonym callback = nat

record ZClientConfig =
  client :: jsstring
  connectionString :: jsstring
  username :: jsstring
  password :: jsstring
  path :: jsstring
  encryptionSecretKey :: jsstring
  logger :: "callback option"
  onUpdateConfigurations :: "callback option"

text \<open>
  The class \<open>ZookeeperClient\<close>. Its \<open>client\<close> field is the handle of the session object
  made by \<open>zookeeper.createClient\<close>; it is \<open>None\<close> (undefined) while the constructor
  has not assigned it.
\<close>

type_synonym handle = nat

record ZookeeperClient =
  client :: "handle option"
  connection_string :: jsstring
  username :: jsstring
  password :: jsstring
  path :: jsstring
  encryption_secret_key :: jsstring
  logger :: "callback option"
  on_update_configurations :: "callback option"

datatype js_error =
    TypeError string  \<comment> \<open>a property read or method call on \<open>undefined\<close>: the property\<close>
  | Error jsstring    \<comment> \<open>an error thrown by a library, with its message\<close>

text \<open>A watcher notification of the coordination library: \<open>event.type\<close>, \<open>event.name\<close>.\<close>

record watch_event =
  ev_type :: nat
  ev_name :: jsstring

datatype log_message =
    Literal string
  | MessageOf "js_error option"  \<comment> \<open>\<open>(error as Error)?.message\<close>\<close>
  | Value jsstring
  | Json watch_event
  | RunZookeeper js_error  \<comment> \<open>the text \<open>run zookeeper >>>>\<close> followed by \<open>error.message\<close>\<close>

text \<open>Every record logged has \<open>type: "ZOOKEEPER"\<close>; the other three fields vary.\<close>

record log_record =
  level :: string
  message :: log_message
  description :: string

text \<open>The calls made on the coordination library, in order.\<close>

datatype lib_call =
    CreateClient handle jsstring
  | AddAuthInfo handle jsstring
  | Once_connected handle
  | Connect handle
  | On handle string
  | Close handle
  | GetData handle jsstring

text \<open>
  The \<open>data\<close> argument of the completion callback. The program reads a buffer only through
  \<open>toString("utf8")\<close>, so a buffer is represented by the text that call yields.
\<close>

datatype data = Undefined | Buffer jsstring

text \<open>
  How the library answers a call that can fail or call back: \<open>createClient\<close>, the pair
  \<open>once("connected")\<close>/\<open>connect\<close>, the three registrations of \<open>events\<close>, and \<open>getData\<close>. \<open>Throws\<close> is a synchronous
  exception, \<open>Silent\<close> a call that returns and never calls back, \<open>Connected\<close> the
  "connected" event, and the two \<open>Completion\<close> replies the completion callback of
  \<open>getData\<close> with an error or with the node's data. A reply that does not fit the call
  it answers counts as \<open>Silent\<close>, and so does a call made when no reply is left. Where
  one reply answers several calls made in a row, an exception is taken to come from the
  last of them.
\<close>

datatype reply =
    Throws jsstring
  | Silent
  | Connected
  | Completion_error jsstring
  | Completion_data data

text \<open>
  The state of the process: the static field \<open>ZookeeperClient.instance\<close>, the module
  variable \<open>is_running_zookeeper\<close>, \<open>process.env\<close>, what was written to the console, and
  the library: the handles it has created and the replies it will give. \<open>env_writes\<close> and
  \<open>calls\<close> record the assignments to \<open>process.env\<close> and the library calls in order.
  \<open>process.env\<close> is taken as a plain table from names to values.

  A handler registered by \<open>once("connected")\<close> stays on the session object until the next
  "connected" event, whatever becomes of the call that registered it. \<open>waiting_handlers\<close>
  counts the handlers of connection attempts that threw and whose \<open>catch\<close> block is still
  waiting for \<open>retry\<close>; \<open>idle_handlers\<close> counts the other handlers not yet fired, whose
  cycle has come to rest with its promises pending; \<open>connected_events\<close> counts the
  "connected" events. The counts are not kept by session object: the constructor creates
  one at most. \<open>unhandled_rejections\<close> lists the reasons of the promises rejected with
  nothing to handle it, as is the promise of an async executor or callback that throws
  outside any \<open>try\<close> block; a plain Node process ends on the first of them.
\<close>

record world =
  ZookeeperClient_instance :: "ZookeeperClient option"
  is_running_zookeeper :: bool
  env :: "jsstring \<rightharpoonup> jsstring"
  env_writes :: "(jsstring \<times> jsstring) list"
  console :: "log_record list"
  calls :: "lib_call list"
  replies :: "reply list"
  handles :: nat
  idle_handlers :: nat
  waiting_handlers :: nat
  connected_events :: nat
  unhandled_rejections :: "js_error option list"

definition console_log :: "string \<Rightarrow> log_message \<Rightarrow> string \<Rightarrow> world \<Rightarrow> world" where
  "console_log lv msg descr w =
     w\<lparr>console := console w @ [\<lparr>level = lv, message = msg, description = descr\<rparr>]\<rparr>"

definition set_env :: "jsstring \<Rightarrow> jsstring \<Rightarrow> world \<Rightarrow> world" where
  "set_env key v w = w\<lparr>env := (env w)(key \<mapsto> v), env_writes := env_writes w @ [(key, v)]\<rparr>"

definition unhandled_rejection :: "js_error option \<Rightarrow> world \<Rightarrow> world" where
  "unhandled_rejection e w = w\<lparr>unhandled_rejections := unhandled_rejections w @ [e]\<rparr>"

text \<open>The fate of a promise. \<open>OutOfFuel\<close> is not a fate: the retry budget of the model ran out.\<close>

datatype outcome = Resolved | Rejected "js_error option" | Pending | OutOfFuel

section \<open>Decryption and parsing\<close>

text \<open>
  The cipher is Node's: \<open>crypto.createDecipheriv("aes-256-cbc", key, iv)\<close>, then
  \<open>update(encrypted, "hex", "utf8")\<close> and \<open>final("utf8")\<close> appended. It is a parameter:
  from key, iv and ciphertext bytes it yields the text, or throws.
\<close>

type_synonym decipher = "byte list \<Rightarrow> byte list \<Rightarrow> byte list \<Rightarrow> js_error + jsstring"

definition decrypt_value :: "decipher \<Rightarrow> ZookeeperClient \<Rightarrow> jsstring \<Rightarrow> js_error + jsstring" where
  "decrypt_value D this encryptedText0 =
     (let encryptedText = replace encryptedText0 (js ''devEnc:'') [];
          key = Buffer_from_hex (encryption_secret_key this);
          iv = Buffer_from_hex (slice encryptedText 0 32);
          encrypted = Buffer_from_hex (slice_from encryptedText 32)
      in D key iv encrypted)"

definition CRLF :: jsstring where
  "CRLF = [0xD, 0xA]"

definition parsed_data :: "jsstring \<Rightarrow> jsstring list" where
  "parsed_data text =
     filter (\<lambda>item. item \<noteq> [] \<and> \<not> startsWith item (js ''#'')) (split text CRLF)"

text \<open>
  The body of the \<open>forEach\<close> callback. The destructuring \<open>[key, value]\<close> takes the first two
  pieces of the split; with fewer than two, \<open>value\<close> is undefined and \<open>value.startsWith\<close>
  throws before anything is assigned.
\<close>

definition assign_item :: "decipher \<Rightarrow> ZookeeperClient \<Rightarrow> jsstring \<Rightarrow> world \<Rightarrow> js_error + world" where
  "assign_item D this item w =
     (case map trim (split item (js ''='')) of
        key # v # _ \<Rightarrow>
          (if startsWith v (js ''devEnc:'')
           then (case decrypt_value D this v of
                   Inl e \<Rightarrow> Inl e
                 | Inr plain \<Rightarrow> Inr (set_env key plain w))
           else Inr (set_env key v w))
      | _ \<Rightarrow> Inl (TypeError ''startsWith''))"

text \<open>\<open>xs.forEach(f)\<close>: an exception of \<open>f\<close> ends the loop; what was done before stays.\<close>

fun forEach :: "('a \<Rightarrow> world \<Rightarrow> js_error + world) \<Rightarrow> 'a list \<Rightarrow> world \<Rightarrow> js_error option \<times> world" where
  "forEach f [] w = (None, w)"
| "forEach f (x # xs) w =
     (case f x w of
        Inl e \<Rightarrow> (Some e, w)
      | Inr w' \<Rightarrow> forEach f xs w')"

text \<open>
  \<open>parse_loaded_data\<close>: the promise resolves after the loop; the \<open>catch\<close> block logs and
  does not resolve.
\<close>

definition parse_loaded_data :: "decipher \<Rightarrow> ZookeeperClient \<Rightarrow> data \<Rightarrow> world \<Rightarrow> outcome \<times> world" where
  "parse_loaded_data D this d w =
     (case d of
        Undefined \<Rightarrow>
          (Pending, console_log ''ERROR'' (MessageOf (Some (TypeError ''toString''))) ''parse data'' w)
      | Buffer text \<Rightarrow>
          (case forEach (assign_item D this) (parsed_data text) w of
             (None, w') \<Rightarrow> (Resolved, w')
           | (Some e, w') \<Rightarrow>
               (Pending, console_log ''ERROR'' (MessageOf (Some e)) ''parse data'' w')))"

section \<open>The coordination library\<close>

definition next_reply :: "world \<Rightarrow> reply \<times> world" where
  "next_reply w = (case replies w of [] \<Rightarrow> (Silent, w) | r # rs \<Rightarrow> (r, w\<lparr>replies := rs\<rparr>))"

definition call_lib :: "lib_call list \<Rightarrow> world \<Rightarrow> world" where
  "call_lib cs w = w\<lparr>calls := calls w @ cs\<rparr>"

text \<open>\<open>zookeeper.createClient(connectionString, {sessionTimeout: 30000})\<close>: a new handle.\<close>

definition createClient :: "jsstring \<Rightarrow> world \<Rightarrow> (js_error + handle) \<times> world" where
  "createClient cs w =
     (case next_reply (call_lib [CreateClient (handles w) cs] w) of
        (Throws m, w1) \<Rightarrow> (Inl (Error m), w1)
      | (_, w1) \<Rightarrow> (Inr (handles w), w1\<lparr>handles := Suc (handles w)\<rparr>))"

section \<open>The class ZookeeperClient\<close>

text \<open>
  The constructor. The static field is assigned before the fields of the object are, and
  the object is shared: when \<open>createClient\<close> throws, the instance stays registered with
  its \<open>client\<close> undefined.
\<close>

definition constructor :: "ZClientConfig \<Rightarrow> world \<Rightarrow> (js_error + ZookeeperClient) \<times> world" where
  "constructor config w =
     (case ZookeeperClient_instance w of
        Some inst \<Rightarrow> (Inr inst, w)
      | None \<Rightarrow>
          (let this = \<lparr>client = None,
                       connection_string = connectionString config,
                       username = ZClientConfig.username config,
                       password = ZClientConfig.password config,
                       path = ZClientConfig.path config,
                       encryption_secret_key = encryptionSecretKey config,
                       logger = ZClientConfig.logger config,
                       on_update_configurations = onUpdateConfigurations config\<rparr>;
               w1 = w\<lparr>ZookeeperClient_instance := Some this\<rparr>
           in case createClient (connection_string this) w1 of
                (Inl e, w2) \<Rightarrow> (Inl e, w2)
              | (Inr h, w2) \<Rightarrow>
                  (let this' = this\<lparr>client := Some h\<rparr>;
                       w3 = w2\<lparr>ZookeeperClient_instance := Some this'\<rparr>
                   in (Inr this',
                       call_lib [AddAuthInfo h (username this' @ js '':'' @ password this')] w3))))"

text \<open>\<open>events()\<close>: three persistent handlers on the session object.\<close>

definition events :: "ZookeeperClient \<Rightarrow> world \<Rightarrow> js_error option \<times> world" where
  "events this w =
     (case client this of
        None \<Rightarrow> (Some (TypeError ''on''), w)
      | Some h \<Rightarrow>
          (case next_reply
                  (call_lib [On h ''disconnected'', On h ''expired'', On h ''error''] w) of
             (Throws m, w1) \<Rightarrow> (Some (Error m), w1)
           | (_, w1) \<Rightarrow> (None, w1)))"

text \<open>
  An \<open>await\<close> or \<open>return\<close> of a promise that is the last statement of a \<open>catch\<close> block or
  callback, in an executor which does not call \<open>resolve\<close> afterwards: whatever the awaited
  promise does, the executor's own promise stays pending, and a rejection of the awaited
  promise is handled by nothing.
\<close>

definition await_then_nothing :: "outcome \<times> world \<Rightarrow> outcome \<times> world" where
  "await_then_nothing p =
     (case p of
        (OutOfFuel, w) \<Rightarrow> (OutOfFuel, w)
      | (Rejected e, w) \<Rightarrow> (Pending, unhandled_rejection e w)
      | (_, w) \<Rightarrow> (Pending, w))"

text \<open>
  The "connected" event: every handler registered by \<open>once("connected")\<close> and not yet
  fired is called and removed; each logs and resolves the promise of its \<open>connect\<close>. The
  logged text is given without its leading check-mark symbol.
\<close>

definition fire_connected :: "world \<Rightarrow> world" where
  "fire_connected w =
     w\<lparr>console := console w @
          replicate (Suc (idle_handlers w + waiting_handlers w))
            \<lparr>level = ''INFO'', message = Literal ''connected to zookeeper'', description = []\<rparr>,
       idle_handlers := 0, waiting_handlers := 0, connected_events := Suc (connected_events w)\<rparr>"

text \<open>
  \<open>run\<close>, \<open>connect\<close>, \<open>retry\<close> and \<open>fetch_config\<close>. Each returns the fate of its promise
  and the state once the library has given its replies to the calls made: a callback is
  run where the call that registers it is made, and an \<open>await\<close> on a promise that stays
  pending ends the method, pending too. The first argument bounds the number of nested
  retries; \<open>run_enough_fuel\<close> below shows that a bound above the number of replies to
  come is never used up.

  \<open>run_after_connect\<close> is the part of \<open>run\<close> that follows \<open>await this.connect()\<close>: the rest of
  the \<open>try\<close> block (the inner \<open>case\<close>, whose \<open>Rejected\<close> result is an exception) and the
  \<open>catch\<close> block.

  In \<open>connect\<close>, when \<open>this.client.connect()\<close> throws, the handler just registered stays on
  the session object while the \<open>catch\<close> block awaits \<open>retry\<close>. If a "connected" event
  arrives in the meantime, that handler resolves the promise of this \<open>connect\<close>, and the
  \<open>run\<close> that awaits it goes on; the model lets it go on when the retried cycle has come
  to rest. When the "connected" event arrives, the handlers left idle by earlier cycles
  fire too, and each \<open>run\<close> that was waiting behind one goes on from
  \<open>await this.connect()\<close>: \<open>resume_idle_runs\<close> runs these continuations one after the
  other, before the cycle that received the event goes on itself. Its first component
  tells whether the budget ran out.

  In \<open>retry\<close>, \<open>this.client.close()\<close> and \<open>await this.run()\<close> stand in the async executor
  outside any \<open>try\<close> block: on a client without its session object the first throws, and
  a rejected \<open>run\<close> would make the second throw. Either is an unhandled rejection, and the
  promise of \<open>retry\<close> stays pending. The same holds in the completion callback of
  \<open>fetch_config\<close> for a rejected \<open>parse_loaded_data\<close>.
\<close>

function run :: "nat \<Rightarrow> decipher \<Rightarrow> ZookeeperClient \<Rightarrow> world \<Rightarrow> outcome \<times> world"
  and run_after_connect :: "nat \<Rightarrow> decipher \<Rightarrow> ZookeeperClient \<Rightarrow> world \<Rightarrow> outcome \<times> world"
  and resume_idle_runs :: "nat \<Rightarrow> nat \<Rightarrow> decipher \<Rightarrow> ZookeeperClient \<Rightarrow> world \<Rightarrow> bool \<times> world"
  and connect :: "nat \<Rightarrow> decipher \<Rightarrow> ZookeeperClient \<Rightarrow> world \<Rightarrow> outcome \<times> world"
  and retry :: "nat \<Rightarrow> decipher \<Rightarrow> ZookeeperClient \<Rightarrow> world \<Rightarrow> outcome \<times> world"
  and fetch_config :: "nat \<Rightarrow> decipher \<Rightarrow> ZookeeperClient \<Rightarrow> world \<Rightarrow> outcome \<times> world"
where
  "run n D this w =
     (case connect n D this w of
        (Resolved, w1) \<Rightarrow> run_after_connect n D this w1
      | (Rejected e, w1) \<Rightarrow>
          await_then_nothing
            (retry n D this (console_log ''ERROR'' (MessageOf e) ''unhandled error'' w1))
      | other \<Rightarrow> other)"
| "run_after_connect n D this w =
     (case (case events this w of
              (Some e, w1) \<Rightarrow> (Rejected (Some e), w1)
            | (None, w1) \<Rightarrow> fetch_config n D this w1) of
        (Rejected e, w2) \<Rightarrow>
          await_then_nothing
            (retry n D this (console_log ''ERROR'' (MessageOf e) ''unhandled error'' w2))
      | other \<Rightarrow> other)"
| "resume_idle_runs k n D this w =
     (case k of
        0 \<Rightarrow> (False, w)
      | Suc j \<Rightarrow>
          (case run_after_connect n D this w of
             (OutOfFuel, w1) \<Rightarrow> (True, w1)
           | (_, w1) \<Rightarrow> resume_idle_runs j n D this w1))"
| "connect n D this w =
     (case client this of
        None \<Rightarrow>
          await_then_nothing
            (retry n D this
               (console_log ''ERROR'' (MessageOf (Some (TypeError ''once''))) ''connect'' w))
      | Some h \<Rightarrow>
          (case next_reply (call_lib [Once_connected h, Connect h] w) of
             (Throws m, w1) \<Rightarrow>
               (case retry n D this
                       (console_log ''ERROR'' (MessageOf (Some (Error m))) ''connect''
                          (w1\<lparr>waiting_handlers := Suc (waiting_handlers w1)\<rparr>)) of
                  (OutOfFuel, w2) \<Rightarrow> (OutOfFuel, w2)
                | (_, w2) \<Rightarrow>
                    (if connected_events w1 < connected_events w2 then (Resolved, w2)
                     else (Pending, w2\<lparr>waiting_handlers := waiting_handlers w2 - 1,
                                       idle_handlers := Suc (idle_handlers w2)\<rparr>)))
           | (Connected, w1) \<Rightarrow>
               (case resume_idle_runs (idle_handlers w1) n D this (fire_connected w1) of
                  (True, w2) \<Rightarrow> (OutOfFuel, w2)
                | (False, w2) \<Rightarrow> (Resolved, w2))
           | (_, w1) \<Rightarrow> (Pending, w1\<lparr>idle_handlers := Suc (idle_handlers w1)\<rparr>)))"
| "retry n D this w =
     (case client this of
        None \<Rightarrow> (Pending, unhandled_rejection (Some (TypeError ''close'')) w)
      | Some h \<Rightarrow>
          (case n of
             0 \<Rightarrow> (OutOfFuel, call_lib [Close h] w)
           | Suc m \<Rightarrow>
               (case run m D this (call_lib [Close h] w) of
                  (Resolved, w1) \<Rightarrow> (Resolved, w1)
                | (Rejected e, w1) \<Rightarrow> (Pending, unhandled_rejection e w1)
                | other \<Rightarrow> other)))"
| "fetch_config n D this w =
     (case (case client this of
              None \<Rightarrow> Inl (TypeError ''getData'', w)
            | Some h \<Rightarrow>
                (case next_reply (call_lib [GetData h (path this)] w) of
                   (Throws m, w1) \<Rightarrow> Inl (Error m, w1)
                 | (r, w1) \<Rightarrow> Inr (r, w1))) of
        Inl (e, w1) \<Rightarrow>
          await_then_nothing
            (retry n D this (console_log ''ERROR'' (MessageOf (Some e)) ''fetch config'' w1))
      | Inr (Completion_error err, w1) \<Rightarrow>
          await_then_nothing
            (retry n D this
               (console_log ''ERROR'' (Value err) ''error event received in get data'' w1))
      | Inr (Completion_data d, w1) \<Rightarrow>
          (case parse_loaded_data D this d (console_log ''INFO'' (Literal ''fetched data'') [] w1) of
             (Resolved, w2) \<Rightarrow> (Resolved, console_log ''INFO'' (Literal ''parsed data'') [] w2)
           | (Rejected e, w2) \<Rightarrow> (Pending, unhandled_rejection e w2)
           | other \<Rightarrow> other)
      | Inr (_, w1) \<Rightarrow> (Pending, w1))"
  by pat_completeness auto
termination
  by (relation "inv_image (less_than <*lex*> less_than <*lex*> less_than)
        (\<lambda>x. case x of
               Inl (Inl (n, D, this, w)) \<Rightarrow> (n, 5::nat, 0::nat)
             | Inl (Inr (Inl (n, D, this, w))) \<Rightarrow> (n, 2, 0)
             | Inl (Inr (Inr (k, n, D, this, w))) \<Rightarrow> (n, 3, k)
             | Inr (Inl (n, D, this, w)) \<Rightarrow> (n, 4, 0)
             | Inr (Inr (Inl (n, D, this, w))) \<Rightarrow> (n, 0, 0)
             | Inr (Inr (Inr (n, D, this, w))) \<Rightarrow> (n, 1, 0))")
    auto

text \<open>The watcher passed to \<open>getData\<close>, and the handlers registered by \<open>events\<close>.\<close>

definition watch_callback :: "nat \<Rightarrow> decipher \<Rightarrow> ZookeeperClient \<Rightarrow> watch_event \<Rightarrow> world \<Rightarrow> outcome \<times> world" where
  "watch_callback n D this event w =
     (let w1 = console_log ''INFO'' (Json event) ''event received in get data'' w
      in if ev_type event = 3 \<and> ev_name event = js ''NODE_DATA_CHANGED''
         then fetch_config n D this w1
         else (Resolved, w1))"

definition on_disconnected :: "world \<Rightarrow> world" where
  "on_disconnected w = console_log ''INFO'' (Literal ''disconnected from zookeeper'') [] w"

definition on_expired :: "nat \<Rightarrow> decipher \<Rightarrow> ZookeeperClient \<Rightarrow> world \<Rightarrow> outcome \<times> world" where
  "on_expired n D this w =
     retry n D this (console_log ''INFO'' (Literal ''zookeeper session expired'') [] w)"

definition on_error :: "jsstring \<Rightarrow> world \<Rightarrow> world" where
  "on_error error w = console_log ''INFO'' (Value error) ''error on zookeeper'' w"

section \<open>The module entry point\<close>

text \<open>
  \<open>run_zookeeper\<close>. The \<open>catch\<close> block reads \<open>error.message\<close> without a guard, so an
  undefined rejection reason would throw there, inside the async executor: an unhandled
  rejection, which leaves the promise pending.
\<close>

definition run_zookeeper :: "nat \<Rightarrow> decipher \<Rightarrow> ZClientConfig \<Rightarrow> world \<Rightarrow> outcome \<times> world" where
  "run_zookeeper n D config w =
     (if \<not> is_running_zookeeper w then
        (case (case constructor config w of
                 (Inl e, w1) \<Rightarrow> (Rejected (Some e), w1)
               | (Inr zookeeperClient, w1) \<Rightarrow> run n D zookeeperClient w1) of
           (Rejected (Some e), w2) \<Rightarrow>
             (Rejected None, console_log ''ERROR'' (RunZookeeper e) [] w2)
         | (Rejected None, w2) \<Rightarrow> (Pending, unhandled_rejection (Some (TypeError ''message'')) w2)
         | other \<Rightarrow> other)
      else (Resolved, w))"

section \<open>Notions used to state the properties\<close>

text \<open>A sequence of \<open>new ZookeeperClient(config)\<close> expressions, evaluated in order.\<close>

fun construct_all :: "ZClientConfig list \<Rightarrow> world \<Rightarrow> (js_error + ZookeeperClient) list \<times> world" where
  "construct_all [] w = ([], w)"
| "construct_all (c # cs) w =
     (case constructor c w of
        (r, w1) \<Rightarrow> (case construct_all cs w1 of (rs, w2) \<Rightarrow> (r # rs, w2)))"

text \<open>A call on the session object \<open>h\<close>; creating a session is not one.\<close>

fun session_call :: "handle \<Rightarrow> lib_call \<Rightarrow> bool" where
  "session_call h (CreateClient h' cs) = False"
| "session_call h (AddAuthInfo h' c) = False"
| "session_call h (Once_connected h') = (h' = h)"
| "session_call h (Connect h') = (h' = h)"
| "session_call h (On h' ev) = (h' = h)"
| "session_call h (Close h') = (h' = h)"
| "session_call h (GetData h' p) = (h' = h)"

text \<open>
  \<open>same_session h w w'\<close>: \<open>w'\<close> continues \<open>w\<close> on the session object \<open>h\<close>. What was
  logged and called in \<open>w\<close> is still there, every later library call is a call on \<open>h\<close>,
  no session object was created, the singleton and the module flag are as they were, no
  unhandled rejection was raised, and the replies still to come have not become more.
\<close>

definition same_session :: "handle \<Rightarrow> world \<Rightarrow> world \<Rightarrow> bool" where
  "same_session h w w' \<longleftrightarrow>
     handles w' = handles w \<and>
     ZookeeperClient_instance w' = ZookeeperClient_instance w \<and>
     is_running_zookeeper w' = is_running_zookeeper w \<and>
     take (length (console w)) (console w') = console w \<and>
     take (length (calls w)) (calls w') = calls w \<and>
     list_all (session_call h) (drop (length (calls w)) (calls w')) \<and>
     unhandled_rejections w' = unhandled_rejections w \<and>
     length (replies w') \<le> length (replies w)"

text \<open>
  \<open>logged_and_retried h w w'\<close>: since \<open>w\<close> an error record was logged and \<open>close\<close> was
  called on \<open>h\<close>, which only \<open>retry\<close> does.
\<close>

definition logged_and_retried :: "handle \<Rightarrow> world \<Rightarrow> world \<Rightarrow> bool" where
  "logged_and_retried h w w' \<longleftrightarrow>
     Close h \<in> set (drop (length (calls w)) (calls w')) \<and>
     list_ex (\<lambda>r. level r = ''ERROR'') (drop (length (console w)) (console w'))"

section \<open>Example inputs\<close>

definition scenario_payload :: jsstring where
  "scenario_payload = js ''A=1'' @ CRLF @ js ''#comment'' @ CRLF @ CRLF @ js ''B=2'' @ CRLF"

definition example_config :: ZClientConfig where
  "example_config =
     \<lparr>ZClientConfig.client = js ''zk'', connectionString = js ''localhost:2181'',
      username = js ''user'', password = js ''secret'', path = js ''/config'',
      encryptionSecretKey = js ''00112233445566778899aabbccddeeff00112233445566778899aabbccddeeff'',
      logger = None, onUpdateConfigurations = None\<rparr>"

definition other_config :: ZClientConfig where
  "other_config =
     \<lparr>ZClientConfig.client = js ''zk2'', connectionString = js ''remote:2181'',
      username = js ''admin'', password = js ''hunter2'', path = js ''/other'',
      encryptionSecretKey = js ''ff'', logger = Some 1, onUpdateConfigurations = Some 2\<rparr>"

definition example_client :: ZookeeperClient where
  "example_client =
     \<lparr>client = Some 0, connection_string = js ''localhost:2181'', username = js ''user'',
      password = js ''secret'', path = js ''/config'',
      encryption_secret_key = js ''00112233445566778899aabbccddeeff00112233445566778899aabbccddeeff'',
      logger = None, on_update_configurations = None\<rparr>"

definition initial_world :: world where
  "initial_world =
     \<lparr>ZookeeperClient_instance = None, is_running_zookeeper = False, env = Map.empty,
      env_writes = [], console = [], calls = [], replies = [], handles = 0,
      idle_handlers = 0, waiting_handlers = 0, connected_events = 0,
      unhandled_rejections = []\<rparr>"

text \<open>
  Behaviours of the library: the first read fails and the cycle after it succeeds; the
  connection string is refused; the session is created, connects and is read twice; the
  first connection attempt throws and the next one succeeds, so that two cycles go on
  and read; a first cycle gets no answer to its connection attempt and a second one is
  connected; a read started by the watcher fails and the cycle after it succeeds. The
  replies are in the order of the calls: \<open>createClient\<close> if there is one, then for each
  cycle the connection, the registrations of \<open>events\<close>, and the read.
\<close>

definition failing_read_world :: world where
  "failing_read_world =
     initial_world\<lparr>replies := [Connected, Silent, Completion_error (js ''lost''),
       Connected, Silent, Completion_data (Buffer (js ''A=1''))]\<rparr>"

definition refused_address_world :: world where
  "refused_address_world = initial_world\<lparr>replies := [Throws (js ''bad address'')]\<rparr>"

definition two_cycles_world :: world where
  "two_cycles_world =
     initial_world\<lparr>replies := [Silent, Connected, Silent, Completion_data (Buffer (js ''A=1'')),
       Connected, Silent, Completion_data (Buffer (js ''A=2''))]\<rparr>"

definition throwing_connect_world :: world where
  "throwing_connect_world =
     initial_world\<lparr>replies := [Throws (js ''boom''), Connected, Silent,
       Completion_data (Buffer (js ''A=1'')), Silent, Completion_data (Buffer (js ''A=2''))]\<rparr>"

definition waiting_cycle_world :: world where
  "waiting_cycle_world =
     initial_world\<lparr>replies := [Silent, Silent, Connected, Silent,
       Completion_data (Buffer (js ''A=1'')), Silent, Completion_data (Buffer (js ''A=2''))]\<rparr>"

definition failing_refetch_world :: world where
  "failing_refetch_world =
     initial_world\<lparr>replies := [Completion_error (js ''lost''), Connected, Silent,
       Completion_data (Buffer (js ''A=2''))]\<rparr>"

definition data_changed :: watch_event where
  "data_changed = \<lparr>ev_type = 3, ev_name = js ''NODE_DATA_CHANGED''\<rparr>"

definition node_deleted :: watch_event where
  "node_deleted = \<lparr>ev_type = 2, ev_name = js ''NODE_DELETED''\<rparr>"

text \<open>A process whose global \<open>crypto\<close> has no \<open>createDecipheriv\<close>.\<close>

definition failing_decipher :: decipher where
  "failing_decipher key iv encrypted = Inl (TypeError ''createDecipheriv'')"

text \<open>
  A stand-in cipher pair for exercising \<open>decrypt_value\<close>: every byte is combined with the
  first byte of the key and of the initialization vector.
\<close>

definition toy_encipher :: "byte list \<Rightarrow> byte list \<Rightarrow> jsstring \<Rightarrow> byte list" where
  "toy_encipher key iv plain = map (\<lambda>c. ucast c + hd key + hd iv) plain"

definition toy_decipher :: decipher where
  "toy_decipher key iv encrypted = Inr (map (\<lambda>b. ucast (b - hd key - hd iv)) encrypted)"

section \<open>Lemmas on strings, buffers and the parsing loop\<close>

declare split_from.simps [simp del]

lemma split_from_no_sep: "c \<notin> set s \<Longrightarrow> split_from [c] cur s = [cur @ s]"
proof (induction s arbitrary: cur)
  case Nil
  then show ?case by (subst split_from.simps) simp
next
  case (Cons a s)
  then show ?case by (subst split_from.simps) (auto simp: startsWith_def)
qed

lemma split_no_sep: "c \<notin> set s \<Longrightarrow> split s [c] = [s]"
  by (simp add: split_def split_from_no_sep)

lemma js_equals_sign: "js ''='' = [0x3D]"
  by (simp add: js_def)

lemma assign_item_no_equals_sign:
  "0x3D \<notin> set item \<Longrightarrow> assign_item D this item w = Inl (TypeError ''startsWith'')"
  by (simp add: assign_item_def js_equals_sign split_no_sep)

lemma assign_item_Inr:
  assumes "assign_item D this item w = Inr w'"
  shows "\<exists>k v. w' = set_env k v w \<and> (\<forall>u. assign_item D this item u = Inr (set_env k v u))"
proof -
  from assms obtain key v rest where p: "map trim (split item (js ''='')) = key # v # rest"
    by (auto simp: assign_item_def split: list.splits)
  show ?thesis
  proof (cases "startsWith v (js ''devEnc:'')")
    case True
    with assms p obtain plain
      where d: "decrypt_value D this v = Inr plain" and w': "w' = set_env key plain w"
      by (auto simp: assign_item_def split: sum.splits)
    from True p d have "\<forall>u. assign_item D this item u = Inr (set_env key plain u)"
      by (simp add: assign_item_def)
    with w' show ?thesis by blast
  next
    case False
    with assms p have w': "w' = set_env key v w"
      by (simp add: assign_item_def)
    from False p have "\<forall>u. assign_item D this item u = Inr (set_env key v u)"
      by (simp add: assign_item_def)
    with w' show ?thesis by blast
  qed
qed

lemma forEach_append:
  "forEach f (xs @ ys) w =
     (case forEach f xs w of (None, w') \<Rightarrow> forEach f ys w' | (Some e, w') \<Rightarrow> (Some e, w'))"
  by (induction xs arbitrary: w) (auto split: sum.splits)

lemma forEach_throwing_item:
  "f item (snd (forEach f pre w)) = Inl e0 \<Longrightarrow>
     \<exists>e. forEach f (pre @ item # post) w = (Some e, snd (forEach f pre w))"
  by (auto simp: forEach_append split: prod.splits option.splits)

lemma forEach_Some_decompose:
  "forEach f xs w = (Some e, w1) \<Longrightarrow>
     \<exists>pre item post. xs = pre @ item # post \<and> forEach f pre w = (None, w1) \<and> f item w1 = Inl e"
proof (induction xs arbitrary: w)
  case Nil
  then show ?case by simp
next
  case (Cons x xs)
  show ?case
  proof (cases "f x w")
    case (Inl e')
    with Cons.prems have "e' = e" "w1 = w" by auto
    with Inl have "x # xs = [] @ x # xs \<and> forEach f [] w = (None, w1) \<and> f x w1 = Inl e"
      by simp
    then show ?thesis by blast
  next
    case (Inr w')
    with Cons.prems have "forEach f xs w' = (Some e, w1)" by simp
    from Cons.IH [OF this] obtain pre item post
      where "xs = pre @ item # post" "forEach f pre w' = (None, w1)" "f item w1 = Inl e"
      by blast
    with Inr have "x # xs = (x # pre) @ item # post \<and> forEach f (x # pre) w = (None, w1)
        \<and> f item w1 = Inl e"
      by simp
    then show ?thesis by blast
  qed
qed

text \<open>
  The loop only assigns: its assignments are, in order, those of the callback on the first
  items, one per item.
\<close>

lemma forEach_assign_writes:
  "forEach (assign_item D this) items w = (r, w') \<Longrightarrow>
     \<exists>ws. w' = w\<lparr>env := env w', env_writes := env_writes w @ ws\<rparr> \<and> length ws \<le> length items \<and>
          (\<forall>i<length ws. \<forall>u. assign_item D this (items ! i) u
               = Inr (set_env (fst (ws ! i)) (snd (ws ! i)) u))"
proof (induction items arbitrary: w)
  case Nil
  then show ?case by auto
next
  case (Cons x xs)
  show ?case
  proof (cases "assign_item D this x w")
    case (Inl e)
    with Cons.prems show ?thesis by (auto intro!: exI [of _ "[]"])
  next
    case (Inr w1)
    then obtain k v where w1: "w1 = set_env k v w"
      and kv: "\<And>u. assign_item D this x u = Inr (set_env k v u)"
      using assign_item_Inr by blast
    from Inr Cons.prems have "forEach (assign_item D this) xs w1 = (r, w')" by simp
    from Cons.IH [OF this] obtain ws
      where ws: "w' = w1\<lparr>env := env w', env_writes := env_writes w1 @ ws\<rparr>"
        "length ws \<le> length xs"
        "\<And>i u. i < length ws \<Longrightarrow>
           assign_item D this (xs ! i) u = Inr (set_env (fst (ws ! i)) (snd (ws ! i)) u)"
      by blast
    let ?ws = "(k, v) # ws"
    have "w' = w\<lparr>env := env w', env_writes := env_writes w @ ?ws\<rparr>"
      using ws(1) w1 by (simp add: set_env_def)
    moreover have "length ?ws \<le> length (x # xs)" using ws(2) by simp
    moreover have "assign_item D this ((x # xs) ! i) u
        = Inr (set_env (fst (?ws ! i)) (snd (?ws ! i)) u)" if "i < length ?ws" for i u
      using that kv ws(3) by (cases i) simp_all
    ultimately show ?thesis by blast
  qed
qed

lemma parse_loaded_data_writes:
  "\<exists>ws. env_writes (snd (parse_loaded_data D this (Buffer text) w)) = env_writes w @ ws \<and>
        length ws \<le> length (parsed_data text) \<and>
        (\<forall>i<length ws. \<forall>u. assign_item D this (parsed_data text ! i) u
             = Inr (set_env (fst (ws ! i)) (snd (ws ! i)) u))"
proof -
  obtain r w1 where f: "forEach (assign_item D this) (parsed_data text) w = (r, w1)"
    by (cases "forEach (assign_item D this) (parsed_data text) w")
  from forEach_assign_writes [OF f] obtain ws
    where ws: "w1 = w\<lparr>env := env w1, env_writes := env_writes w @ ws\<rparr>"
      "length ws \<le> length (parsed_data text)"
      "\<forall>i<length ws. \<forall>u. assign_item D this (parsed_data text ! i) u
         = Inr (set_env (fst (ws ! i)) (snd (ws ! i)) u)"
    by blast
  from ws(1) have "env_writes w1 = env_writes w @ ws"
    by (metis world.select_convs(4) world.surjective world.update_convs(3,4))
  then have "env_writes (snd (parse_loaded_data D this (Buffer text) w)) = env_writes w @ ws"
    using f by (simp add: parse_loaded_data_def console_log_def split: option.splits)
  with ws(2,3) show ?thesis by blast
qed

lemma scenario_payload_parsed:
  "parse_loaded_data D this (Buffer scenario_payload) w =
     (Resolved, set_env (js ''B'') (js ''2'') (set_env (js ''A'') (js ''1'') w))"
  by (simp add: parse_loaded_data_def parsed_data_def scenario_payload_def CRLF_def js_def
      split_def split_from.simps startsWith_def assign_item_def trim_def is_space_def)

lemma hex_digit_hex_char: "d < 16 \<Longrightarrow> hex_digit (hex_char d) = Some d"
proof -
  assume "d < 16"
  then have "d = 0 \<or> d = 1 \<or> d = 2 \<or> d = 3 \<or> d = 4 \<or> d = 5 \<or> d = 6 \<or> d = 7 \<or> d = 8
      \<or> d = 9 \<or> d = 10 \<or> d = 11 \<or> d = 12 \<or> d = 13 \<or> d = 14 \<or> d = 15"
    by arith
  then show ?thesis
    by (elim disjE) (simp_all add: hex_digit_def hex_char_def)
qed

lemma Buffer_from_hex_toString_hex:
  "Buffer_from_hex (toString_hex bs @ rest) = bs @ Buffer_from_hex rest"
proof (induction bs)
  case Nil
  then show ?case by (simp add: toString_hex_def)
next
  case (Cons b bs)
  have "unat b < 2 ^ LENGTH(8)" by (rule unsigned_less)
  then have "unat b < 256" by simp
  then have d: "unat b div 16 < 16" "unat b mod 16 < 16" by auto
  have "(of_nat (16 * (unat b div 16) + unat b mod 16) :: byte) = b"
    by simp
  with Cons d show ?case
    by (simp add: toString_hex_def hex_digit_hex_char)
qed

lemma replace_prefix: "pat \<noteq> [] \<Longrightarrow> replace (pat @ rest) pat [] = rest"
  by (cases pat) (simp_all add: startsWith_def)

lemma length_Buffer_from_hex:
  "\<forall>c\<in>set s. hex_digit c \<noteq> None \<Longrightarrow> length (Buffer_from_hex s) = length s div 2"
  by (induction s rule: Buffer_from_hex.induct) auto

section \<open>Parsing the payload\<close>

text \<open>
  C1. Blank lines and lines beginning with \<open>#\<close> never cause an assignment to the
  environment: whatever the payload, the assignments made by \<open>parse_loaded_data\<close> are, in
  order, those the callback makes on the first lines of \<open>parsed_data\<close>, one per line, and
  these are lines of the CRLF split that are non-empty and do not start with \<open>#\<close>. For
  the payload \<open>A=1 CRLF #comment CRLF CRLF B=2 CRLF\<close> the promise resolves and exactly
  \<open>A = 1\<close> and then \<open>B = 2\<close> are assigned, nothing else being changed.
\<close>

theorem parse_loaded_data_skips_blank_and_comment_lines:
  "(\<exists>ws. env_writes (snd (parse_loaded_data D this (Buffer text) w)) = env_writes w @ ws \<and>
         length ws \<le> length (parsed_data text) \<and>
         (\<forall>i<length ws.
            parsed_data text ! i \<in> set (split text CRLF) \<and>
            parsed_data text ! i \<noteq> [] \<and>
            \<not> startsWith (parsed_data text ! i) (js ''#'') \<and>
            (\<forall>u. assign_item D this (parsed_data text ! i) u
               = Inr (set_env (fst (ws ! i)) (snd (ws ! i)) u)))) \<and>
   parse_loaded_data D this (Buffer scenario_payload) w =
     (Resolved, set_env (js ''B'') (js ''2'') (set_env (js ''A'') (js ''1'') w))"
proof -
  obtain ws where ws: "env_writes (snd (parse_loaded_data D this (Buffer text) w)) = env_writes w @ ws"
    "length ws \<le> length (parsed_data text)"
    "\<forall>i<length ws. \<forall>u. assign_item D this (parsed_data text ! i) u
       = Inr (set_env (fst (ws ! i)) (snd (ws ! i)) u)"
    using parse_loaded_data_writes by blast
  have "parsed_data text ! i \<in> set (split text CRLF) \<and> parsed_data text ! i \<noteq> []
      \<and> \<not> startsWith (parsed_data text ! i) (js ''#'')" if "i < length ws" for i
  proof -
    from that ws(2) have "parsed_data text ! i \<in> set (parsed_data text)" by simp
    then show ?thesis by (simp add: parsed_data_def)
  qed
  with ws scenario_payload_parsed show ?thesis by blast
qed

theorem parse_loaded_data_skips_blank_and_comment_lines_witness:
  "env_writes (snd (parse_loaded_data failing_decipher example_client (Buffer scenario_payload)
      initial_world)) = [(js ''A'', js ''1''), (js ''B'', js ''2'')] \<and>
   env (snd (parse_loaded_data failing_decipher example_client (Buffer scenario_payload)
      initial_world)) = [js ''A'' \<mapsto> js ''1'', js ''B'' \<mapsto> js ''2''] \<and>
   length (parsed_data scenario_payload) = 2"
  using parse_loaded_data_skips_blank_and_comment_lines
    [of failing_decipher example_client scenario_payload initial_world]
  by (auto simp: set_env_def initial_world_def parsed_data_def scenario_payload_def CRLF_def
      js_def split_def split_from.simps startsWith_def)

text \<open>
  C2. The line is split at every \<open>=\<close> and only the first two pieces are used: for the
  payload \<open>A=b=c CRLF\<close> the value assigned to \<open>A\<close> is \<open>b\<close>, not the whole right-hand
  side \<open>b=c\<close>.
\<close>

theorem parse_loaded_data_cuts_value_at_second_equals_sign:
  "parse_loaded_data D this (Buffer (js ''A=b=c'' @ CRLF)) w =
     (Resolved, set_env (js ''A'') (js ''b'') w)"
  by (simp add: parse_loaded_data_def parsed_data_def CRLF_def js_def
      split_def split_from.simps startsWith_def assign_item_def trim_def is_space_def)

text \<open>
  C3. Round trip of \<open>decrypt_value\<close>: for a value made of the marker \<open>devEnc:\<close>, 32
  characters of initialization vector and the hexadecimal encoding of a ciphertext, the
  cipher is run on the key decoded from the configured hexadecimal key, on the vector
  decoded from the first 32 characters after the marker, and on the bytes decoded from
  the rest; so when the ciphertext is the encryption of a plaintext that the cipher
  decrypts under that key and vector, \<open>decrypt_value\<close> returns the plaintext. With 32
  hexadecimal digits the vector has 16 bytes.
\<close>

theorem decrypt_value_round_trip:
  assumes "length ivh = 32"
    and "\<forall>c\<in>set ivh. hex_digit c \<noteq> None"
    and "key = Buffer_from_hex (encryption_secret_key this)"
    and "iv = Buffer_from_hex ivh"
    and "D key iv (encipher key iv plaintext) = Inr plaintext"
  shows "decrypt_value D this (js ''devEnc:'' @ ivh @ toString_hex (encipher key iv plaintext))
           = Inr plaintext \<and> length iv = 16"
proof -
  have "js ''devEnc:'' \<noteq> []" by (simp add: js_def)
  then have r: "replace (js ''devEnc:'' @ ivh @ toString_hex (encipher key iv plaintext))
      (js ''devEnc:'') [] = ivh @ toString_hex (encipher key iv plaintext)"
    by (rule replace_prefix)
  have "Buffer_from_hex (toString_hex (encipher key iv plaintext)) = encipher key iv plaintext"
    using Buffer_from_hex_toString_hex [of "encipher key iv plaintext" "[]"] by simp
  with assms r have "decrypt_value D this
      (js ''devEnc:'' @ ivh @ toString_hex (encipher key iv plaintext)) = Inr plaintext"
    by (simp add: decrypt_value_def slice_def slice_from_def)
  moreover have "length iv = 16"
    using assms(1,2,4) by (simp add: length_Buffer_from_hex)
  ultimately show ?thesis by simp
qed

theorem decrypt_value_round_trip_witness:
  "length (js ''a0a1a2a3a4a5a6a7a8a9aaabacadaeaf'') = 32 \<and>
   list_all (\<lambda>c. hex_digit c \<noteq> None) (js ''a0a1a2a3a4a5a6a7a8a9aaabacadaeaf'') \<and>
   toy_decipher (Buffer_from_hex (encryption_secret_key example_client))
     (Buffer_from_hex (js ''a0a1a2a3a4a5a6a7a8a9aaabacadaeaf''))
     (toy_encipher (Buffer_from_hex (encryption_secret_key example_client))
        (Buffer_from_hex (js ''a0a1a2a3a4a5a6a7a8a9aaabacadaeaf'')) (js ''secret''))
     = Inr (js ''secret'') \<and>
   decrypt_value toy_decipher example_client
     (js ''devEnc:a0a1a2a3a4a5a6a7a8a9aaabacadaeaf130503120514'') = Inr (js ''secret'')"
proof -
  let ?ivh = "js ''a0a1a2a3a4a5a6a7a8a9aaabacadaeaf''"
  let ?key = "Buffer_from_hex (encryption_secret_key example_client)"
  let ?iv = "Buffer_from_hex ?ivh"
  have h1: "length ?ivh = 32" by (simp add: js_def)
  have h2: "\<forall>c\<in>set ?ivh. hex_digit c \<noteq> None" by (simp add: js_def hex_digit_def)
  have k: "hd ?key = 0" by (simp add: example_client_def js_def hex_digit_def)
  have v: "hd ?iv = 0xA0" by (simp add: js_def hex_digit_def)
  have e: "toy_encipher ?key ?iv (js ''secret'') = [0x13, 0x05, 0x03, 0x12, 0x05, 0x14]"
    unfolding toy_encipher_def k v by (simp add: js_def)
  have h5: "toy_decipher ?key ?iv (toy_encipher ?key ?iv (js ''secret'')) = Inr (js ''secret'')"
    unfolding e unfolding toy_decipher_def k v by (simp add: js_def)
  have t: "js ''devEnc:'' @ ?ivh @ toString_hex (toy_encipher ?key ?iv (js ''secret''))
      = js ''devEnc:a0a1a2a3a4a5a6a7a8a9aaabacadaeaf130503120514''"
    unfolding e by (simp add: js_def toString_hex_def hex_char_def)
  from decrypt_value_round_trip
    [where ivh = ?ivh and this = example_client and D = toy_decipher
       and encipher = toy_encipher and plaintext = "js ''secret''", OF h1 h2 refl refl h5]
    h1 h2 h5
  show ?thesis
    unfolding t by (simp add: list_all_iff)
qed

text \<open>
  C5, as the code has it. When the processing of a payload raises an exception (the
  payload is undefined, or the callback throws at some line), the exception is logged
  with the description \<open>parse data\<close>, the lines before the throwing one have been applied
  and no later one is, and the promise is neither rejected nor resolved: it stays
  pending. The claim that it resolves fails for the payload \<open>A\<close>.
\<close>

theorem parse_loaded_data_exception_leaves_promise_pending:
  "(forEach (assign_item D this) (parsed_data text) w = (Some e, w1) \<longrightarrow>
      parse_loaded_data D this (Buffer text) w =
        (Pending, console_log ''ERROR'' (MessageOf (Some e)) ''parse data'' w1) \<and>
      (\<exists>pre item post. parsed_data text = pre @ item # post \<and>
         forEach (assign_item D this) pre w = (None, w1) \<and>
         assign_item D this item w1 = Inl e)) \<and>
   parse_loaded_data D this Undefined w =
     (Pending, console_log ''ERROR'' (MessageOf (Some (TypeError ''toString''))) ''parse data'' w)"
  using forEach_Some_decompose [of "assign_item D this" "parsed_data text" w e w1]
  by (simp add: parse_loaded_data_def)

theorem parse_loaded_data_exception_leaves_promise_pending_witness:
  "forEach (assign_item failing_decipher example_client)
     (parsed_data (js ''A=1'' @ CRLF @ js ''B'' @ CRLF @ js ''C=3'')) initial_world
     = (Some (TypeError ''startsWith''), set_env (js ''A'') (js ''1'') initial_world) \<and>
   parse_loaded_data failing_decipher example_client
     (Buffer (js ''A=1'' @ CRLF @ js ''B'' @ CRLF @ js ''C=3'')) initial_world
     = (Pending, console_log ''ERROR'' (MessageOf (Some (TypeError ''startsWith''))) ''parse data''
          (set_env (js ''A'') (js ''1'') initial_world))"
proof -
  have f: "forEach (assign_item failing_decipher example_client)
     (parsed_data (js ''A=1'' @ CRLF @ js ''B'' @ CRLF @ js ''C=3'')) initial_world
     = (Some (TypeError ''startsWith''), set_env (js ''A'') (js ''1'') initial_world)"
    by (simp add: parsed_data_def CRLF_def js_def split_def split_from.simps startsWith_def
        assign_item_def trim_def is_space_def)
  with parse_loaded_data_exception_leaves_promise_pending
    [of failing_decipher example_client "js ''A=1'' @ CRLF @ js ''B'' @ CRLF @ js ''C=3''"
      initial_world "TypeError ''startsWith''" "set_env (js ''A'') (js ''1'') initial_world"]
  show ?thesis by blast
qed

theorem parse_loaded_data_resolves_counterexample:
  "fst (forEach (assign_item failing_decipher example_client) (parsed_data (js ''A''))
      initial_world) = Some (TypeError ''startsWith'') \<and>
   fst (parse_loaded_data failing_decipher example_client (Buffer (js ''A'')) initial_world)
     = Pending"
  by (simp add: parse_loaded_data_def parsed_data_def CRLF_def js_def split_def
      split_from.simps startsWith_def assign_item_def trim_def is_space_def)

text \<open>
  C10. When the payload has a non-empty line that does not start with \<open>#\<close> and holds no
  \<open>=\<close>, the callback throws at that line (\<open>startsWith\<close> is called on an undefined
  value), the environment is what the lines before it have made of it, one error record
  is logged, and the promise stays pending: it is neither resolved nor rejected.
\<close>

theorem parse_loaded_data_line_without_equals_sign:
  assumes "item \<in> set (split text CRLF)"
    and "item \<noteq> []"
    and "\<not> startsWith item (js ''#'')"
    and "0x3D \<notin> set item"
  shows "\<exists>pre post e.
           parsed_data text = pre @ item # post \<and>
           assign_item D this item (snd (forEach (assign_item D this) pre w))
             = Inl (TypeError ''startsWith'') \<and>
           (fst (forEach (assign_item D this) pre w) = None \<longrightarrow> e = TypeError ''startsWith'') \<and>
           parse_loaded_data D this (Buffer text) w =
             (Pending, console_log ''ERROR'' (MessageOf (Some e)) ''parse data''
                (snd (forEach (assign_item D this) pre w)))"
proof -
  from assms(1-3) have "item \<in> set (parsed_data text)"
    by (simp add: parsed_data_def)
  then obtain pre post where p: "parsed_data text = pre @ item # post"
    by (auto simp: in_set_conv_decomp)
  obtain r w1 where r: "forEach (assign_item D this) pre w = (r, w1)"
    by (cases "forEach (assign_item D this) pre w")
  have t: "assign_item D this item w1 = Inl (TypeError ''startsWith'')"
    using assms(4) by (rule assign_item_no_equals_sign)
  let ?e = "case r of None \<Rightarrow> TypeError ''startsWith'' | Some e' \<Rightarrow> e'"
  have "forEach (assign_item D this) (pre @ item # post) w = (Some ?e, w1)"
    by (cases r) (simp_all add: forEach_append r t)
  then have "parse_loaded_data D this (Buffer text) w =
      (Pending, console_log ''ERROR'' (MessageOf (Some ?e)) ''parse data'' w1)"
    by (simp add: parse_loaded_data_def p)
  moreover have "fst (forEach (assign_item D this) pre w) = None \<longrightarrow> ?e = TypeError ''startsWith''"
    using r by simp
  moreover have "snd (forEach (assign_item D this) pre w) = w1"
    using r by simp
  ultimately show ?thesis using p t by force
qed

theorem parse_loaded_data_line_without_equals_sign_witness:
  "js ''B'' \<in> set (split (js ''A=1'' @ CRLF @ js ''B'' @ CRLF @ js ''C=3'') CRLF) \<and>
   js ''B'' \<noteq> [] \<and> \<not> startsWith (js ''B'') (js ''#'') \<and> 0x3D \<notin> set (js ''B'') \<and>
   (\<exists>pre post e.
      parsed_data (js ''A=1'' @ CRLF @ js ''B'' @ CRLF @ js ''C=3'') = pre @ js ''B'' # post \<and>
      parse_loaded_data failing_decipher example_client
        (Buffer (js ''A=1'' @ CRLF @ js ''B'' @ CRLF @ js ''C=3'')) initial_world =
        (Pending, console_log ''ERROR'' (MessageOf (Some e)) ''parse data''
           (snd (forEach (assign_item failing_decipher example_client) pre initial_world))))"
proof -
  have h1: "js ''B'' \<in> set (split (js ''A=1'' @ CRLF @ js ''B'' @ CRLF @ js ''C=3'') CRLF)"
    by (simp add: CRLF_def js_def split_def split_from.simps startsWith_def)
  have h2: "js ''B'' \<noteq> []" by (simp add: js_def)
  have h3: "\<not> startsWith (js ''B'') (js ''#'')" by (simp add: js_def startsWith_def)
  have h4: "0x3D \<notin> set (js ''B'')" by (simp add: js_def)
  from parse_loaded_data_line_without_equals_sign
    [OF h1 h2 h3 h4, of failing_decipher example_client initial_world] h1 h2 h3 h4
  show ?thesis by blast
qed

section \<open>The singleton\<close>

lemma constructor_existing:
  "ZookeeperClient_instance w = Some inst \<Longrightarrow> constructor c w = (Inr inst, w)"
  by (simp add: constructor_def)

lemma construct_all_existing:
  "ZookeeperClient_instance w = Some inst \<Longrightarrow>
     construct_all cs w = (replicate (length cs) (Inr inst), w)"
  by (induction cs) (simp_all add: constructor_existing)

lemma constructor_first:
  assumes "ZookeeperClient_instance w = None"
  shows "\<exists>inst. ZookeeperClient_instance (snd (constructor c w)) = Some inst \<and>
           connection_string inst = connectionString c \<and>
           username inst = ZClientConfig.username c \<and>
           password inst = ZClientConfig.password c \<and>
           path inst = ZClientConfig.path c \<and>
           encryption_secret_key inst = encryptionSecretKey c \<and>
           logger inst = ZClientConfig.logger c \<and>
           on_update_configurations inst = onUpdateConfigurations c \<and>
           (fst (constructor c w) = Inr inst \<or>
            (\<exists>e. fst (constructor c w) = Inl e \<and> client inst = None))"
  using assms
  by (auto simp: constructor_def createClient_def next_reply_def call_lib_def Let_def
      split: list.splits reply.splits)

text \<open>
  C4. In any sequence of constructor calls that starts without an instance, the first
  call registers an instance whose configuration fields are those of the first
  configuration; every later call returns that same instance and changes nothing, whatever
  its argument.
\<close>

theorem constructor_singleton:
  assumes "ZookeeperClient_instance w = None"
  shows "\<exists>inst. ZookeeperClient_instance (snd (constructor c w)) = Some inst \<and>
           construct_all (c # cs) w =
             (fst (constructor c w) # replicate (length cs) (Inr inst), snd (constructor c w)) \<and>
           connection_string inst = connectionString c \<and>
           username inst = ZClientConfig.username c \<and>
           password inst = ZClientConfig.password c \<and>
           path inst = ZClientConfig.path c \<and>
           encryption_secret_key inst = encryptionSecretKey c \<and>
           logger inst = ZClientConfig.logger c \<and>
           on_update_configurations inst = onUpdateConfigurations c \<and>
           (fst (constructor c w) = Inr inst \<or>
            (\<exists>e. fst (constructor c w) = Inl e \<and> client inst = None))"
proof -
  from constructor_first [OF assms, of c] obtain inst
    where i: "ZookeeperClient_instance (snd (constructor c w)) = Some inst"
      and f: "connection_string inst = connectionString c \<and>
           username inst = ZClientConfig.username c \<and>
           password inst = ZClientConfig.password c \<and>
           path inst = ZClientConfig.path c \<and>
           encryption_secret_key inst = encryptionSecretKey c \<and>
           logger inst = ZClientConfig.logger c \<and>
           on_update_configurations inst = onUpdateConfigurations c \<and>
           (fst (constructor c w) = Inr inst \<or>
            (\<exists>e. fst (constructor c w) = Inl e \<and> client inst = None))"
    by blast
  obtain r w1 where r: "constructor c w = (r, w1)"
    by (cases "constructor c w")
  with i have "construct_all cs w1 = (replicate (length cs) (Inr inst), w1)"
    by (simp add: construct_all_existing)
  with r have "construct_all (c # cs) w =
      (fst (constructor c w) # replicate (length cs) (Inr inst), snd (constructor c w))"
    by simp
  with i f show ?thesis by blast
qed

theorem constructor_singleton_witness:
  "ZookeeperClient_instance initial_world = None \<and>
   construct_all [example_config, other_config, example_config] initial_world =
     ([Inr example_client, Inr example_client, Inr example_client],
      snd (constructor example_config initial_world)) \<and>
   ZookeeperClient_instance (snd (constructor example_config initial_world))
     = Some example_client"
proof -
  have h: "ZookeeperClient_instance initial_world = None" by (simp add: initial_world_def)
  have c: "constructor example_config initial_world =
      (Inr example_client,
       initial_world\<lparr>ZookeeperClient_instance := Some example_client, handles := 1,
         calls := [CreateClient 0 (js ''localhost:2181''), AddAuthInfo 0 (js ''user:secret'')]\<rparr>)"
    by (simp add: constructor_def createClient_def next_reply_def call_lib_def Let_def
        initial_world_def example_config_def example_client_def js_def)
  from constructor_singleton [OF h, of example_config "[other_config, example_config]"] h
  show ?thesis by (auto simp: c)
qed

section \<open>Lemmas on the connection cycle\<close>

declare run.simps [simp del] run_after_connect.simps [simp del]
  resume_idle_runs.simps [simp del] connect.simps [simp del] retry.simps [simp del]
  fetch_config.simps [simp del]

text \<open>None of the promises is ever rejected.\<close>

lemma retry_never_rejected: "fst (retry n D this w) \<noteq> Rejected e"
  by (simp add: retry.simps split: option.splits nat.splits prod.splits outcome.splits)

lemma fst_await_then_nothing: "fst (await_then_nothing p) = Pending \<or> fst (await_then_nothing p) = OutOfFuel"
  by (cases p) (simp add: await_then_nothing_def split: outcome.splits)

lemma await_then_nothing_never_rejected: "fst (await_then_nothing p) \<noteq> Rejected e"
  using fst_await_then_nothing [of p] by auto

lemma await_then_nothing_never_resolved: "fst (await_then_nothing p) \<noteq> Resolved"
  using fst_await_then_nothing [of p] by auto

lemma snd_await_then_nothing:
  "snd (await_then_nothing (retry n D this w)) = snd (retry n D this w)"
proof -
  obtain out w1 where r: "retry n D this w = (out, w1)"
    by (cases "retry n D this w")
  with retry_never_rejected [of n D this w] have "\<And>e. out \<noteq> Rejected e" by auto
  with r show ?thesis
    by (cases out) (auto simp: await_then_nothing_def)
qed

lemma parse_loaded_data_never_rejected: "fst (parse_loaded_data D this d w) \<noteq> Rejected e"
  by (simp add: parse_loaded_data_def split: data.splits prod.splits option.splits)

lemma connect_never_rejected: "fst (connect n D this w) \<noteq> Rejected e"
  by (simp add: connect.simps await_then_nothing_never_rejected
      split: option.splits prod.splits reply.splits outcome.splits bool.splits)

lemma fetch_config_never_rejected: "fst (fetch_config n D this w) \<noteq> Rejected e"
  by (simp add: fetch_config.simps await_then_nothing_never_rejected
      split: option.splits prod.splits reply.splits outcome.splits)

text \<open>
  Since \<open>connect\<close> and \<open>fetch_config\<close> are never rejected, the \<open>catch\<close> block of \<open>run\<close> is
  entered only when \<open>events\<close> throws.
\<close>

lemma run_after_connect_unfold:
  "run_after_connect n D this w =
     (case events this w of
        (Some e, w1) \<Rightarrow>
          await_then_nothing
            (retry n D this (console_log ''ERROR'' (MessageOf (Some e)) ''unhandled error'' w1))
      | (None, w1) \<Rightarrow> fetch_config n D this w1)"
proof -
  obtain r w1 where ev: "events this w = (r, w1)"
    by (cases "events this w")
  show ?thesis
  proof (cases r)
    case (Some e)
    with ev show ?thesis by (simp add: run_after_connect.simps)
  next
    case None
    obtain f w2 where f: "fetch_config n D this w1 = (f, w2)"
      by (cases "fetch_config n D this w1")
    with fetch_config_never_rejected [of n D this w1] have nr: "\<And>e. f \<noteq> Rejected e"
      by auto
    show ?thesis
    proof (cases f)
      case (Rejected e)
      with nr show ?thesis by blast
    qed (use ev None f in \<open>simp_all add: run_after_connect.simps\<close>)
  qed
qed

lemma run_unfold:
  "run n D this w =
     (case connect n D this w of
        (Resolved, w1) \<Rightarrow> run_after_connect n D this w1
      | other \<Rightarrow> other)"
proof -
  obtain c w1 where c: "connect n D this w = (c, w1)"
    by (cases "connect n D this w")
  show ?thesis
  proof (cases c)
    case (Rejected e)
    with c connect_never_rejected [of n D this w e] show ?thesis by simp
  qed (use c in \<open>simp_all add: run.simps\<close>)
qed

lemma run_after_connect_never_rejected: "fst (run_after_connect n D this w) \<noteq> Rejected e"
  by (simp add: run_after_connect_unfold await_then_nothing_never_rejected
      fetch_config_never_rejected split: prod.splits option.splits)

lemma run_never_rejected: "fst (run n D this w) \<noteq> Rejected e"
proof -
  obtain c w1 where c: "connect n D this w = (c, w1)"
    by (cases "connect n D this w")
  with connect_never_rejected [of n D this w e] have "c \<noteq> Rejected e" by simp
  with c show ?thesis
    by (cases c) (simp_all add: run_unfold run_after_connect_never_rejected)
qed

lemma same_session_refl: "same_session h w w"
  by (simp add: same_session_def)

lemma same_session_trans:
  assumes "same_session h w1 w2" and "same_session h w2 w3"
  shows "same_session h w1 w3"
proof -
  from assms(1) obtain c1 where c1: "calls w2 = calls w1 @ c1" "list_all (session_call h) c1"
    unfolding same_session_def by (metis append_take_drop_id)
  from assms(2) obtain c2 where c2: "calls w3 = calls w2 @ c2" "list_all (session_call h) c2"
    unfolding same_session_def by (metis append_take_drop_id)
  from assms(1) obtain l1 where l1: "console w2 = console w1 @ l1"
    unfolding same_session_def by (metis append_take_drop_id)
  from assms(2) obtain l2 where l2: "console w3 = console w2 @ l2"
    unfolding same_session_def by (metis append_take_drop_id)
  from assms c1 c2 l1 l2 show ?thesis
    by (simp add: same_session_def)
qed

lemma same_session_console_log: "same_session h w (console_log lv msg d w)"
  by (simp add: same_session_def console_log_def)

lemma same_session_call_lib:
  "list_all (session_call h) cs \<Longrightarrow> same_session h w (call_lib cs w)"
  by (simp add: same_session_def call_lib_def)

lemma same_session_next_reply: "same_session h w (snd (next_reply w))"
  by (simp add: same_session_def next_reply_def split: list.splits)

lemma same_session_set_env: "same_session h w (set_env k v w)"
  by (simp add: same_session_def set_env_def)

lemma same_session_fire_connected: "same_session h w (fire_connected w)"
  by (simp add: same_session_def fire_connected_def)

text \<open>The counts of the handlers play no part in \<open>same_session\<close>.\<close>

lemma same_session_handlers:
  "same_session h w (w'\<lparr>waiting_handlers := a\<rparr>) = same_session h w w'"
  "same_session h w (w'\<lparr>idle_handlers := b\<rparr>) = same_session h w w'"
  "same_session h (w\<lparr>waiting_handlers := a\<rparr>) w' = same_session h w w'"
  "same_session h (w\<lparr>idle_handlers := b\<rparr>) w' = same_session h w w'"
  by (simp_all add: same_session_def)

lemma same_session_forEach_assign:
  "same_session h w (snd (forEach (assign_item D this) items w))"
proof (induction items arbitrary: w)
  case Nil
  show ?case by (simp add: same_session_refl)
next
  case (Cons x xs)
  show ?case
  proof (cases "assign_item D this x w")
    case (Inl e)
    then show ?thesis by (simp add: same_session_refl)
  next
    case (Inr w1)
    then obtain k v where "w1 = set_env k v w"
      using assign_item_Inr by blast
    then have "same_session h w w1" by (simp add: same_session_set_env)
    with Cons [of w1] Inr show ?thesis
      by (auto intro: same_session_trans)
  qed
qed

lemma same_session_parse_loaded_data:
  "same_session h w (snd (parse_loaded_data D this d w))"
proof (cases d)
  case Undefined
  then show ?thesis by (simp add: parse_loaded_data_def same_session_console_log)
next
  case (Buffer payload)
  obtain r w1 where f: "forEach (assign_item D this) (parsed_data payload) w = (r, w1)"
    by (cases "forEach (assign_item D this) (parsed_data payload) w")
  then have "same_session h w w1"
    using same_session_forEach_assign [of h w D this "parsed_data payload"] by simp
  with Buffer f show ?thesis
    by (cases r)
      (auto simp: parse_loaded_data_def intro: same_session_trans same_session_console_log)
qed

text \<open>What a world that continues \<open>call_lib cs0 w\<close> says about the calls since \<open>w\<close>.\<close>

lemma same_session_after_calls:
  assumes "same_session h (call_lib cs0 w) w'"
  shows "\<exists>cs. calls w' = calls w @ cs0 @ cs \<and> list_all (session_call h) cs"
proof -
  from assms have "take (length (calls w @ cs0)) (calls w') = calls w @ cs0"
    and "list_all (session_call h) (drop (length (calls w @ cs0)) (calls w'))"
    by (simp_all add: same_session_def call_lib_def)
  then have "calls w' = calls w @ cs0 @ drop (length (calls w @ cs0)) (calls w')
      \<and> list_all (session_call h) (drop (length (calls w @ cs0)) (calls w'))"
    by (metis append_assoc append_take_drop_id)
  then show ?thesis by blast
qed

lemma next_reply_length:
  "next_reply w = (r, w1) \<Longrightarrow>
     length (replies w1) \<le> length (replies w) \<and>
     (r \<noteq> Silent \<longrightarrow> length (replies w1) < length (replies w))"
  by (auto simp: next_reply_def split: list.splits)

lemma events_same_session:
  assumes "events this w = (r, w')" and "client this = Some h"
  shows "same_session h w w'"
proof -
  let ?w0 = "call_lib [On h ''disconnected'', On h ''expired'', On h ''error''] w"
  have "same_session h w ?w0"
    by (simp add: same_session_call_lib)
  moreover have "same_session h ?w0 (snd (next_reply ?w0))"
    by (rule same_session_next_reply)
  moreover have "w' = snd (next_reply ?w0)"
    using assms by (auto simp: events_def split: prod.splits reply.splits)
  ultimately show ?thesis
    using same_session_trans by blast
qed

lemma events_replies:
  assumes "events this w = (r, w')" and "client this = Some h"
  shows "length (replies w') \<le> length (replies w) \<and>
         (r \<noteq> None \<longrightarrow> length (replies w') < length (replies w))"
proof -
  let ?w0 = "call_lib [On h ''disconnected'', On h ''expired'', On h ''error''] w"
  obtain r0 w1 where n: "next_reply ?w0 = (r0, w1)"
    by (cases "next_reply ?w0")
  from next_reply_length [OF n]
  have "length (replies w1) \<le> length (replies w)"
    "r0 \<noteq> Silent \<longrightarrow> length (replies w1) < length (replies w)"
    by (simp_all add: call_lib_def)
  with assms n show ?thesis
    by (cases r0) (auto simp: events_def)
qed

text \<open>
  The methods, one after the other: each continues the world on the handle of \<open>this\<close>,
  provided \<open>retry\<close> with the same budget does.
\<close>

lemma fetch_config_same_session:
  assumes "client this = Some h"
    and "\<And>w. same_session h w (snd (retry n D this w))"
  shows "same_session h (call_lib [GetData h (path this)] w) (snd (fetch_config n D this w))"
proof -
  let ?w0 = "call_lib [GetData h (path this)] w"
  obtain r w1 where r: "next_reply ?w0 = (r, w1)"
    by (cases "next_reply ?w0")
  then have s: "same_session h ?w0 w1"
    using same_session_next_reply [of h ?w0] by simp
  have via_retry: "same_session h w1 (snd (retry n D this (console_log lv msg d w1)))" for lv msg d
    using assms(2) same_session_console_log same_session_trans by blast
  show ?thesis
  proof (cases r)
    case (Throws m)
    with s r assms(1) via_retry show ?thesis
      by (simp add: fetch_config.simps snd_await_then_nothing) (blast intro: same_session_trans)
  next
    case (Completion_error err)
    with s r assms(1) via_retry show ?thesis
      by (simp add: fetch_config.simps snd_await_then_nothing) (blast intro: same_session_trans)
  next
    case (Completion_data d)
    let ?w2 = "console_log ''INFO'' (Literal ''fetched data'') [] w1"
    obtain out w3 where p: "parse_loaded_data D this d ?w2 = (out, w3)"
      by (cases "parse_loaded_data D this d ?w2")
    then have "same_session h ?w2 w3"
      using same_session_parse_loaded_data [of h ?w2 D this d] by simp
    then have "same_session h w1 w3"
      using same_session_console_log same_session_trans by blast
    then have "same_session h ?w0 w3"
      using s same_session_trans by blast
    moreover have "same_session h ?w0 (console_log ''INFO'' (Literal ''parsed data'') [] w3)"
      using calculation same_session_console_log same_session_trans by blast
    moreover have "\<And>e. out \<noteq> Rejected e"
      using parse_loaded_data_never_rejected [of D this d ?w2] p by auto
    ultimately show ?thesis
      using Completion_data r assms(1) p
      by (cases out) (auto simp: fetch_config.simps)
  qed (use s r assms(1) in \<open>simp_all add: fetch_config.simps\<close>)
qed

lemma run_after_connect_same_session:
  assumes "client this = Some h"
    and "\<And>w. same_session h w (snd (retry n D this w))"
  shows "same_session h w (snd (run_after_connect n D this w))"
proof -
  have via_retry: "same_session h w' (snd (retry n D this (console_log lv msg d w')))" for lv msg d w'
    using assms(2) same_session_console_log same_session_trans by blast
  obtain r w1 where e: "events this w = (r, w1)"
    by (cases "events this w")
  then have s1: "same_session h w w1"
    using assms(1) by (rule events_same_session)
  show ?thesis
  proof (cases r)
    case (Some x)
    from s1 via_retry [of w1] have "same_session h w
        (snd (retry n D this (console_log ''ERROR'' (MessageOf (Some x)) ''unhandled error'' w1)))"
      by (blast intro: same_session_trans)
    with e Some show ?thesis
      by (simp add: run_after_connect.simps snd_await_then_nothing)
  next
    case None
    obtain f w2 where f: "fetch_config n D this w1 = (f, w2)"
      by (cases "fetch_config n D this w1")
    have "same_session h (call_lib [GetData h (path this)] w1) w2"
      using fetch_config_same_session [OF assms, of w1] f by simp
    then have "same_session h w1 w2"
      using same_session_call_lib [of h "[GetData h (path this)]" w1] same_session_trans
      by fastforce
    then have s2: "same_session h w w2"
      using s1 same_session_trans by blast
    show ?thesis
    proof (cases f)
      case (Rejected x)
      with e None f s2 via_retry [of w2] show ?thesis
        by (simp add: run_after_connect.simps snd_await_then_nothing)
          (blast intro: same_session_trans)
    qed (use e None f s2 in \<open>simp_all add: run_after_connect.simps\<close>)
  qed
qed

lemma resume_idle_runs_same_session:
  assumes "client this = Some h"
    and "\<And>w. same_session h w (snd (retry n D this w))"
  shows "same_session h w (snd (resume_idle_runs k n D this w))"
proof (induction k arbitrary: w)
  case 0
  show ?case by (simp add: resume_idle_runs.simps same_session_refl)
next
  case (Suc k)
  obtain out w1 where r: "run_after_connect n D this w = (out, w1)"
    by (cases "run_after_connect n D this w")
  then have s: "same_session h w w1"
    using run_after_connect_same_session [OF assms, of w] by simp
  show ?case
  proof (cases out)
    case OutOfFuel
    with r s show ?thesis
      by (simp add: resume_idle_runs.simps [of "Suc k"])
  qed (use r s Suc.IH [of w1] in
      \<open>auto simp: resume_idle_runs.simps [of "Suc k"] intro: same_session_trans\<close>)
qed

lemma connect_same_session:
  assumes "client this = Some h"
    and "\<And>w. same_session h w (snd (retry n D this w))"
  shows "same_session h (call_lib [Once_connected h, Connect h] w) (snd (connect n D this w))"
proof -
  let ?w0 = "call_lib [Once_connected h, Connect h] w"
  obtain r w1 where r: "next_reply ?w0 = (r, w1)"
    by (cases "next_reply ?w0")
  then have s: "same_session h ?w0 w1"
    using same_session_next_reply [of h ?w0] by simp
  show ?thesis
  proof (cases r)
    case (Throws m)
    let ?wl = "console_log ''ERROR'' (MessageOf (Some (Error m))) ''connect''
        (w1\<lparr>waiting_handlers := Suc (waiting_handlers w1)\<rparr>)"
    obtain out w2 where p: "retry n D this ?wl = (out, w2)"
      by (cases "retry n D this ?wl")
    have "same_session h w1 ?wl"
      by (simp add: same_session_def console_log_def)
    moreover have "same_session h ?wl w2"
      using assms(2) [of ?wl] p by simp
    ultimately have s2: "same_session h ?w0 w2"
      using s same_session_trans by blast
    then have "same_session h ?w0 (w2\<lparr>waiting_handlers := waiting_handlers w2 - 1,
        idle_handlers := Suc (idle_handlers w2)\<rparr>)"
      by (simp add: same_session_def)
    with s2 Throws r p assms(1) show ?thesis
      by (cases out) (simp_all add: connect.simps)
  next
    case Connected
    obtain b w2 where p: "resume_idle_runs (idle_handlers w1) n D this (fire_connected w1) = (b, w2)"
      by (cases "resume_idle_runs (idle_handlers w1) n D this (fire_connected w1)")
    have "same_session h (fire_connected w1) w2"
      using resume_idle_runs_same_session [OF assms, of "fire_connected w1" "idle_handlers w1"] p
      by simp
    then have "same_session h ?w0 w2"
      using s same_session_fire_connected same_session_trans by blast
    with Connected r p assms(1) show ?thesis
      by (cases b) (simp_all add: connect.simps)
  qed (use s r assms(1) in \<open>simp_all add: connect.simps same_session_handlers\<close>)
qed

lemma run_same_session:
  assumes "client this = Some h"
    and "\<And>w. same_session h w (snd (retry n D this w))"
  shows "same_session h (call_lib [Once_connected h, Connect h] w) (snd (run n D this w))"
proof -
  let ?w0 = "call_lib [Once_connected h, Connect h] w"
  obtain c w1 where c: "connect n D this w = (c, w1)"
    by (cases "connect n D this w")
  then have s1: "same_session h ?w0 w1"
    using connect_same_session [OF assms, of w] by simp
  show ?thesis
  proof (cases c)
    case Resolved
    have "same_session h w1 (snd (run_after_connect n D this w1))"
      using assms by (rule run_after_connect_same_session)
    with s1 have "same_session h ?w0 (snd (run_after_connect n D this w1))"
      by (rule same_session_trans)
    with Resolved c show ?thesis
      by (simp add: run.simps)
  next
    case (Rejected x)
    have "same_session h w1
        (snd (retry n D this (console_log ''ERROR'' (MessageOf x) ''unhandled error'' w1)))"
      using assms(2) same_session_console_log same_session_trans by blast
    with s1 have "same_session h ?w0
        (snd (retry n D this (console_log ''ERROR'' (MessageOf x) ''unhandled error'' w1)))"
      by (rule same_session_trans)
    with c Rejected show ?thesis
      by (simp add: run.simps snd_await_then_nothing)
  qed (use c s1 in \<open>simp_all add: run.simps\<close>)
qed

lemma snd_retry_Suc:
  assumes "client this = Some h"
  shows "snd (retry (Suc n) D this w) = snd (run n D this (call_lib [Close h] w))"
proof -
  obtain out w1 where r: "run n D this (call_lib [Close h] w) = (out, w1)"
    by (cases "run n D this (call_lib [Close h] w)")
  with run_never_rejected [of n D this "call_lib [Close h] w"]
  have "\<And>e. out \<noteq> Rejected e" by auto
  with r assms show ?thesis
    by (cases out) (auto simp: retry.simps)
qed

lemma retry_same_session:
  "client this = Some h \<Longrightarrow> same_session h w (snd (retry n D this w))"
proof (induction n arbitrary: w)
  case 0
  then show ?case by (simp add: retry.simps same_session_call_lib)
next
  case (Suc n)
  let ?w0 = "call_lib [Close h] w"
  have "same_session h (call_lib [Once_connected h, Connect h] ?w0) (snd (run n D this ?w0))"
    using run_same_session [OF Suc.prems] Suc.IH [OF Suc.prems] by blast
  moreover have "same_session h w ?w0"
    by (simp add: same_session_call_lib)
  moreover have "same_session h ?w0 (call_lib [Once_connected h, Connect h] ?w0)"
    by (simp add: same_session_call_lib)
  ultimately show ?case
    using snd_retry_Suc [OF Suc.prems] same_session_trans by metis
qed

lemma retry_calls:
  assumes "client this = Some h"
  shows "\<exists>cs. calls (snd (retry n D this w)) = calls w @ Close h # cs
           \<and> list_all (session_call h) cs"
proof (cases n)
  case 0
  with assms show ?thesis by (simp add: retry.simps call_lib_def)
next
  case (Suc m)
  let ?w0 = "call_lib [Close h] w"
  have "same_session h (call_lib [Once_connected h, Connect h] ?w0) (snd (run m D this ?w0))"
    using run_same_session [OF assms] retry_same_session [OF assms] by blast
  moreover have "same_session h ?w0 (call_lib [Once_connected h, Connect h] ?w0)"
    by (simp add: same_session_call_lib)
  ultimately have "same_session h ?w0 (snd (run m D this ?w0))"
    using same_session_trans by blast
  from same_session_after_calls [OF this] Suc snd_retry_Suc [OF assms] show ?thesis
    by simp
qed

text \<open>The calls a method makes are exactly known where no retry intervenes.\<close>

lemma calls_parse_loaded_data: "calls (snd (parse_loaded_data D this d w)) = calls w"
proof (cases d)
  case Undefined
  then show ?thesis by (simp add: parse_loaded_data_def console_log_def)
next
  case (Buffer payload)
  obtain r w1 where f: "forEach (assign_item D this) (parsed_data payload) w = (r, w1)"
    by (cases "forEach (assign_item D this) (parsed_data payload) w")
  from forEach_assign_writes [OF f] obtain ws
    where "w1 = w\<lparr>env := env w1, env_writes := env_writes w @ ws\<rparr>" by blast
  then have "calls w1 = calls (w\<lparr>env := env w1, env_writes := env_writes w @ ws\<rparr>)"
    by simp
  then have "calls w1 = calls w"
    by simp
  with Buffer f show ?thesis
    by (cases r) (simp_all add: parse_loaded_data_def console_log_def)
qed

lemma fetch_config_calls:
  assumes "client this = Some h"
  shows "\<exists>cs. calls (snd (fetch_config n D this w)) = calls w @ GetData h (path this) # cs \<and>
           list_all (session_call h) cs \<and>
           (cs = [] \<or> (\<exists>cs'. cs = Close h # cs')) \<and>
           ((\<forall>m. fst (next_reply w) \<noteq> Throws m) \<and>
            (\<forall>m. fst (next_reply w) \<noteq> Completion_error m) \<longrightarrow> cs = []) \<and>
           ((\<exists>m. fst (next_reply w) = Throws m) \<or>
            (\<exists>m. fst (next_reply w) = Completion_error m) \<longrightarrow> (\<exists>cs'. cs = Close h # cs'))"
proof -
  let ?w0 = "call_lib [GetData h (path this)] w"
  obtain r w1 where r: "next_reply ?w0 = (r, w1)"
    by (cases "next_reply ?w0")
  then have c1: "calls w1 = calls w @ [GetData h (path this)]"
    by (auto simp: next_reply_def call_lib_def split: list.splits)
  have r0: "fst (next_reply w) = r"
    using r by (auto simp: next_reply_def call_lib_def split: list.splits)
  have via_retry: "\<exists>cs. calls (snd (retry n D this (console_log lv msg d w1)))
      = calls w @ GetData h (path this) # Close h # cs \<and> list_all (session_call h) cs" for lv msg d
    using retry_calls [OF assms, of n D "console_log lv msg d w1"] c1
    by (simp add: console_log_def)
  show ?thesis
  proof (cases r)
    case (Throws m)
    with r assms via_retry [of "''ERROR''" "MessageOf (Some (Error m))" "''fetch config''"] r0
    show ?thesis
      by (auto simp: fetch_config.simps snd_await_then_nothing)
  next
    case (Completion_error err)
    with r assms
      via_retry [of "''ERROR''" "Value err" "''error event received in get data''"] r0
    show ?thesis
      by (auto simp: fetch_config.simps snd_await_then_nothing)
  next
    case (Completion_data d)
    let ?w2 = "console_log ''INFO'' (Literal ''fetched data'') [] w1"
    obtain out w3 where p: "parse_loaded_data D this d ?w2 = (out, w3)"
      by (cases "parse_loaded_data D this d ?w2")
    then have "calls w3 = calls w @ [GetData h (path this)]"
      using calls_parse_loaded_data [of D this d ?w2] c1 by (simp add: console_log_def)
    moreover have "\<And>e. out \<noteq> Rejected e"
      using parse_loaded_data_never_rejected [of D this d ?w2] p by auto
    ultimately show ?thesis
      using Completion_data r r0 assms p
      by (cases out) (auto simp: fetch_config.simps console_log_def)
  qed (use r r0 assms c1 in \<open>simp_all add: fetch_config.simps\<close>)
qed

text \<open>With a budget above the number of replies to come, the budget is never used up.\<close>

lemma await_then_nothing_Pending:
  "fst p \<noteq> OutOfFuel \<Longrightarrow> fst (await_then_nothing p) = Pending"
  by (cases p) (auto simp: await_then_nothing_def split: outcome.splits)

lemma parse_loaded_data_no_fuel: "fst (parse_loaded_data D this d w) \<noteq> OutOfFuel"
  by (simp add: parse_loaded_data_def split: data.splits prod.splits option.splits)

lemma fetch_config_enough_fuel:
  assumes "client this = Some h"
    and "\<And>w. length (replies w) < n \<Longrightarrow> fst (retry n D this w) \<noteq> OutOfFuel"
    and "length (replies w) \<le> n"
  shows "fst (fetch_config n D this w) \<noteq> OutOfFuel"
proof -
  let ?w0 = "call_lib [GetData h (path this)] w"
  obtain r w1 where r: "next_reply ?w0 = (r, w1)"
    by (cases "next_reply ?w0")
  from next_reply_length [OF r] have l: "r \<noteq> Silent \<longrightarrow> length (replies w1) < length (replies w)"
    by (simp add: call_lib_def)
  have via_retry: "fst (await_then_nothing (retry n D this (console_log lv msg d w1))) = Pending"
    if "r \<noteq> Silent" for lv msg d
  proof -
    from that l assms(3) have "length (replies (console_log lv msg d w1)) < n"
      by (simp add: console_log_def)
    then show ?thesis
      using assms(2) await_then_nothing_Pending by blast
  qed
  show ?thesis
  proof (cases r)
    case (Throws m)
    with r assms(1) via_retry show ?thesis by (simp add: fetch_config.simps)
  next
    case (Completion_error err)
    with r assms(1) via_retry show ?thesis by (simp add: fetch_config.simps)
  next
    case (Completion_data d)
    let ?w2 = "console_log ''INFO'' (Literal ''fetched data'') [] w1"
    obtain out w3 where p: "parse_loaded_data D this d ?w2 = (out, w3)"
      by (cases "parse_loaded_data D this d ?w2")
    with parse_loaded_data_no_fuel [of D this d ?w2] have "out \<noteq> OutOfFuel" by simp
    with Completion_data r assms(1) p show ?thesis
      by (cases out) (simp_all add: fetch_config.simps)
  qed (use r assms(1) in \<open>simp_all add: fetch_config.simps\<close>)
qed

lemma run_after_connect_enough_fuel:
  assumes "client this = Some h"
    and "\<And>w. length (replies w) < n \<Longrightarrow> fst (retry n D this w) \<noteq> OutOfFuel"
    and "length (replies w) \<le> n"
  shows "fst (run_after_connect n D this w) \<noteq> OutOfFuel"
proof -
  obtain r w1 where e: "events this w = (r, w1)"
    by (cases "events this w")
  show ?thesis
  proof (cases r)
    case (Some x)
    with events_replies [OF e assms(1)] assms(3)
    have "length (replies (console_log ''ERROR'' (MessageOf (Some x)) ''unhandled error'' w1)) < n"
      by (simp add: console_log_def)
    then have "fst (retry n D this
        (console_log ''ERROR'' (MessageOf (Some x)) ''unhandled error'' w1)) \<noteq> OutOfFuel"
      by (rule assms(2))
    with e Some show ?thesis
      by (simp add: run_after_connect_unfold await_then_nothing_Pending)
  next
    case None
    from events_replies [OF e assms(1)] assms(3) have "length (replies w1) \<le> n"
      by simp
    from fetch_config_enough_fuel [OF assms(1,2) this] e None show ?thesis
      by (simp add: run_after_connect_unfold)
  qed
qed

lemma resume_idle_runs_enough_fuel:
  assumes "client this = Some h"
    and "\<And>w. length (replies w) < n \<Longrightarrow> fst (retry n D this w) \<noteq> OutOfFuel"
    and "\<And>w. same_session h w (snd (retry n D this w))"
  shows "length (replies w) \<le> n \<Longrightarrow> \<not> fst (resume_idle_runs k n D this w)"
proof (induction k arbitrary: w)
  case 0
  show ?case by (simp add: resume_idle_runs.simps)
next
  case (Suc k)
  obtain out w1 where r: "run_after_connect n D this w = (out, w1)"
    by (cases "run_after_connect n D this w")
  with run_after_connect_enough_fuel [OF assms(1,2) Suc.prems] have o: "out \<noteq> OutOfFuel"
    by simp
  have "same_session h w w1"
    using run_after_connect_same_session [OF assms(1,3), of w] r by simp
  with Suc.prems have "length (replies w1) \<le> n"
    by (simp add: same_session_def)
  then have "\<not> fst (resume_idle_runs k n D this w1)"
    by (rule Suc.IH)
  with r o show ?case
    by (cases out) (simp_all add: resume_idle_runs.simps [of "Suc k"])
qed

lemma connect_enough_fuel:
  assumes "client this = Some h"
    and "\<And>w. length (replies w) < n \<Longrightarrow> fst (retry n D this w) \<noteq> OutOfFuel"
    and "\<And>w. same_session h w (snd (retry n D this w))"
    and "length (replies w) \<le> n"
  shows "fst (connect n D this w) \<noteq> OutOfFuel"
proof -
  let ?w0 = "call_lib [Once_connected h, Connect h] w"
  obtain r w1 where r: "next_reply ?w0 = (r, w1)"
    by (cases "next_reply ?w0")
  from next_reply_length [OF r] have l: "r \<noteq> Silent \<longrightarrow> length (replies w1) < length (replies w)"
    by (simp add: call_lib_def)
  show ?thesis
  proof (cases r)
    case (Throws m)
    let ?wl = "console_log ''ERROR'' (MessageOf (Some (Error m))) ''connect''
        (w1\<lparr>waiting_handlers := Suc (waiting_handlers w1)\<rparr>)"
    obtain out w2 where p: "retry n D this ?wl = (out, w2)"
      by (cases "retry n D this ?wl")
    from Throws l assms(4) have "length (replies ?wl) < n"
      by (simp add: console_log_def)
    then have "fst (retry n D this ?wl) \<noteq> OutOfFuel"
      by (rule assms(2))
    with p have "out \<noteq> OutOfFuel" by simp
    with Throws r p assms(1) show ?thesis
      by (cases out) (simp_all add: connect.simps)
  next
    case Connected
    with l assms(4) have "length (replies (fire_connected w1)) \<le> n"
      by (simp add: fire_connected_def)
    then have "\<not> fst (resume_idle_runs (idle_handlers w1) n D this (fire_connected w1))"
      using resume_idle_runs_enough_fuel [where w = "fire_connected w1" and n = n and h = h]
        assms(1,2,3)
      by blast
    then obtain w2
      where "resume_idle_runs (idle_handlers w1) n D this (fire_connected w1) = (False, w2)"
      by (cases "resume_idle_runs (idle_handlers w1) n D this (fire_connected w1)") simp
    with Connected r assms(1) show ?thesis
      by (simp add: connect.simps)
  qed (use r assms(1) in \<open>simp_all add: connect.simps\<close>)
qed

lemma run_enough_fuel_step:
  assumes "client this = Some h"
    and "\<And>w. length (replies w) < n \<Longrightarrow> fst (retry n D this w) \<noteq> OutOfFuel"
    and "\<And>w. same_session h w (snd (retry n D this w))"
    and "length (replies w) \<le> n"
  shows "fst (run n D this w) \<noteq> OutOfFuel"
proof -
  obtain c w1 where c: "connect n D this w = (c, w1)"
    by (cases "connect n D this w")
  with connect_enough_fuel [OF assms] have cf: "c \<noteq> OutOfFuel" by simp
  show ?thesis
  proof (cases c)
    case Resolved
    have "same_session h (call_lib [Once_connected h, Connect h] w) w1"
      using connect_same_session [OF assms(1,3), of w] c by simp
    then have "length (replies w1) \<le> n"
      using assms(4) by (simp add: same_session_def call_lib_def)
    from run_after_connect_enough_fuel [OF assms(1,2) this] c Resolved show ?thesis
      by (simp add: run_unfold)
  qed (use c cf in \<open>simp_all add: run_unfold\<close>)
qed

lemma retry_enough_fuel:
  "client this = Some h \<Longrightarrow> length (replies w) < n \<Longrightarrow> fst (retry n D this w) \<noteq> OutOfFuel"
proof (induction n arbitrary: w)
  case 0
  then show ?case by simp
next
  case (Suc n)
  let ?w0 = "call_lib [Close h] w"
  from Suc.prems(2) have "length (replies ?w0) \<le> n"
    by (simp add: call_lib_def)
  then have "fst (run n D this ?w0) \<noteq> OutOfFuel"
    using run_enough_fuel_step [OF Suc.prems(1) Suc.IH [OF Suc.prems(1)]]
      retry_same_session [OF Suc.prems(1)]
    by blast
  then show ?case
    using Suc.prems(1) by (auto simp: retry.simps split: prod.splits outcome.splits)
qed

lemma run_enough_fuel:
  "client this = Some h \<Longrightarrow> length (replies w) \<le> n \<Longrightarrow> fst (run n D this w) \<noteq> OutOfFuel"
  using run_enough_fuel_step retry_enough_fuel retry_same_session by blast

text \<open>What \<open>retry\<close> leaves behind when it is called right after an error was logged.\<close>

lemma logged_and_retried_retry:
  assumes "client this = Some h"
    and "length (calls w) \<le> length (calls w1)"
    and "length (console w) \<le> length (console w1)"
  shows "logged_and_retried h w (snd (retry n D this (console_log ''ERROR'' msg d w1)))"
proof -
  let ?wl = "console_log ''ERROR'' msg d w1"
  let ?w' = "snd (retry n D this ?wl)"
  let ?rec = "\<lparr>level = ''ERROR'', message = msg, description = d\<rparr>"
  from retry_calls [OF assms(1), of n D ?wl] obtain cs
    where "calls ?w' = calls w1 @ Close h # cs"
    by (auto simp: console_log_def)
  with assms(2) have c: "Close h \<in> set (drop (length (calls w)) (calls ?w'))"
    by simp
  have "take (length (console ?wl)) (console ?w') = console ?wl"
    using retry_same_session [OF assms(1), of ?wl n D] by (simp add: same_session_def)
  then have "console ?w' = console ?wl @ drop (length (console ?wl)) (console ?w')"
    by (metis append_take_drop_id)
  then obtain ls where "console ?w' = console w1 @ ?rec # ls"
    by (simp add: console_log_def)
  with assms(3) have "?rec \<in> set (drop (length (console w)) (console ?w'))"
    by simp
  then have "list_ex (\<lambda>r. level r = ''ERROR'') (drop (length (console w)) (console ?w'))"
    unfolding list_ex_iff by force
  with c show ?thesis by (simp add: logged_and_retried_def)
qed

text \<open>What was logged and retried stays so in every continuation.\<close>

lemma logged_and_retried_mono:
  assumes "logged_and_retried h w w1" and "same_session h w1 w2"
  shows "logged_and_retried h w w2"
proof -
  from assms(2) obtain cs where cs: "calls w2 = calls w1 @ cs"
    unfolding same_session_def by (metis append_take_drop_id)
  from assms(2) obtain ls where ls: "console w2 = console w1 @ ls"
    unfolding same_session_def by (metis append_take_drop_id)
  from assms(1) have "Close h \<in> set (drop (length (calls w)) (calls w1))"
    and "list_ex (\<lambda>r. level r = ''ERROR'') (drop (length (console w)) (console w1))"
    by (simp_all add: logged_and_retried_def)
  with cs ls show ?thesis
    by (auto simp: logged_and_retried_def list_ex_iff)
qed

lemma logged_and_retried_handlers:
  "logged_and_retried h w (w'\<lparr>waiting_handlers := a, idle_handlers := b\<rparr>)
     = logged_and_retried h w w'"
  by (simp add: logged_and_retried_def)

lemma connect_throws_logged_and_retried:
  assumes "client this = Some h" and "replies w = Throws m # rs"
  shows "logged_and_retried h w (snd (connect n D this w))"
proof -
  let ?w1 = "w\<lparr>calls := calls w @ [Once_connected h, Connect h], replies := rs\<rparr>"
  let ?w1' = "?w1\<lparr>waiting_handlers := Suc (waiting_handlers ?w1)\<rparr>"
  let ?p = "retry n D this (console_log ''ERROR'' (MessageOf (Some (Error m))) ''connect'' ?w1')"
  have n: "next_reply (call_lib [Once_connected h, Connect h] w) = (Throws m, ?w1)"
    using assms(2) by (simp add: next_reply_def call_lib_def)
  obtain out w2 where p: "?p = (out, w2)"
    by (cases ?p)
  have "logged_and_retried h w (snd ?p)"
    using assms(1) by (rule logged_and_retried_retry) simp_all
  with p have l: "logged_and_retried h w w2" by simp
  then have "logged_and_retried h w
      (w2\<lparr>waiting_handlers := waiting_handlers w2 - 1, idle_handlers := Suc (idle_handlers w2)\<rparr>)"
    by (simp only: logged_and_retried_handlers)
  with l n p assms(1) show ?thesis
    by (cases out) (simp_all add: connect.simps)
qed

lemma run_connect_throws_logged_and_retried:
  assumes "client this = Some h" and "replies w = Throws m # rs"
  shows "logged_and_retried h w (snd (run n D this w))"
proof -
  obtain c w1 where c: "connect n D this w = (c, w1)"
    by (cases "connect n D this w")
  with connect_throws_logged_and_retried [OF assms, of n D]
  have l: "logged_and_retried h w w1" by simp
  show ?thesis
  proof (cases c)
    case Resolved
    have "same_session h w1 (snd (run_after_connect n D this w1))"
      using assms(1) retry_same_session [OF assms(1)]
      by (rule run_after_connect_same_session)
    with l have "logged_and_retried h w (snd (run_after_connect n D this w1))"
      by (rule logged_and_retried_mono)
    with c Resolved show ?thesis by (simp add: run_unfold)
  qed (use c l in \<open>simp_all add: run_unfold\<close>)
qed

lemma run_failure_logged_and_retried:
  assumes "client this = Some h" and "idle_handlers w = 0"
    and "replies w = Connected # Throws m # rs
         \<or> replies w = Connected # Silent # Throws m # rs
         \<or> replies w = Connected # Silent # Completion_error m # rs"
  shows "logged_and_retried h w (snd (run n D this w)) \<and> fst (run n D this w) \<noteq> Resolved"
  using assms(3)
proof (elim disjE)
  assume "replies w = Connected # Throws m # rs"
  with assms(1,2) show ?thesis
    by (simp add: run_unfold run_after_connect_unfold connect.simps resume_idle_runs.simps
        fire_connected_def events_def next_reply_def
        call_lib_def console_log_def [of "''INFO''"]
        snd_await_then_nothing await_then_nothing_never_resolved logged_and_retried_retry)
next
  assume "replies w = Connected # Silent # Throws m # rs"
  with assms(1,2) show ?thesis
    by (simp add: run_unfold run_after_connect_unfold connect.simps resume_idle_runs.simps
        fire_connected_def fetch_config.simps events_def next_reply_def
        call_lib_def console_log_def [of "''INFO''"]
        snd_await_then_nothing await_then_nothing_never_resolved logged_and_retried_retry)
next
  assume "replies w = Connected # Silent # Completion_error m # rs"
  with assms(1,2) show ?thesis
    by (simp add: run_unfold run_after_connect_unfold connect.simps resume_idle_runs.simps
        fire_connected_def fetch_config.simps events_def next_reply_def
        call_lib_def console_log_def [of "''INFO''"]
        snd_await_then_nothing await_then_nothing_never_resolved logged_and_retried_retry)
qed

text \<open>
  No call on a client that has its session object ends in an unhandled rejection; on a
  client without one, \<open>connect\<close> fails at \<open>once\<close>, and \<open>retry\<close> then fails at \<open>close\<close> with
  nothing to catch it.
\<close>

lemma run_no_unhandled_rejection:
  assumes "client this = Some h"
  shows "unhandled_rejections (snd (run n D this w)) = unhandled_rejections w"
proof -
  have "same_session h (call_lib [Once_connected h, Connect h] w) (snd (run n D this w))"
    using assms retry_same_session [OF assms] by (rule run_same_session)
  then show ?thesis
    by (simp add: same_session_def call_lib_def)
qed

lemma run_without_client:
  assumes "client this = None"
  shows "run n D this w =
     (Pending, unhandled_rejection (Some (TypeError ''close''))
        (console_log ''ERROR'' (MessageOf (Some (TypeError ''once''))) ''connect'' w))"
  using assms
  by (simp add: run_unfold connect.simps retry.simps await_then_nothing_def)

lemma constructor_client:
  assumes "constructor config w = (Inr zc, w1)"
    and "\<And>inst. ZookeeperClient_instance w = Some inst \<Longrightarrow> client inst \<noteq> None"
  shows "\<exists>h. client zc = Some h"
  using assms
  by (auto simp: constructor_def Let_def split: option.splits prod.splits sum.splits)

lemma constructor_unhandled_rejections:
  "unhandled_rejections (snd (constructor config w)) = unhandled_rejections w"
  by (auto simp: constructor_def createClient_def next_reply_def call_lib_def Let_def
      split: option.splits prod.splits sum.splits list.splits reply.splits)

text \<open>
  The handlers that outlive their connection attempt. When the first attempt throws and
  the retried one is connected, both handlers fire, and the first \<open>run\<close> goes on through
  \<open>events\<close> and \<open>fetch_config\<close> to \<open>resolve\<close>, after the retried cycle in the model. When a
  first cycle is left waiting for the event and a second invocation of the entry point
  receives it, both cycles register their handlers and read.
\<close>

lemma run_resumed_by_stale_handler:
  "fst (run 6 failing_decipher example_client throwing_connect_world) = Resolved \<and>
   calls (snd (run 6 failing_decipher example_client throwing_connect_world))
     = [Once_connected 0, Connect 0, Close 0, Once_connected 0, Connect 0,
        On 0 ''disconnected'', On 0 ''expired'', On 0 ''error'', GetData 0 (js ''/config''),
        On 0 ''disconnected'', On 0 ''expired'', On 0 ''error'', GetData 0 (js ''/config'')] \<and>
   map level (console (snd (run 6 failing_decipher example_client throwing_connect_world)))
     = [''ERROR'', ''INFO'', ''INFO'', ''INFO'', ''INFO'', ''INFO'', ''INFO''] \<and>
   env_writes (snd (run 6 failing_decipher example_client throwing_connect_world))
     = [(js ''A'', js ''1''), (js ''A'', js ''2'')]"
  by code_simp

lemma run_resumed_by_later_cycle:
  "fst (run_zookeeper 7 failing_decipher example_config waiting_cycle_world) = Pending \<and>
   idle_handlers (snd (run_zookeeper 7 failing_decipher example_config waiting_cycle_world)) = 1 \<and>
   fst (run_zookeeper 7 failing_decipher example_config
      (snd (run_zookeeper 7 failing_decipher example_config waiting_cycle_world))) = Resolved \<and>
   calls (snd (run_zookeeper 7 failing_decipher example_config
      (snd (run_zookeeper 7 failing_decipher example_config waiting_cycle_world))))
     = [CreateClient 0 (js ''localhost:2181''), AddAuthInfo 0 (js ''user:secret''),
        Once_connected 0, Connect 0, Once_connected 0, Connect 0,
        On 0 ''disconnected'', On 0 ''expired'', On 0 ''error'', GetData 0 (js ''/config''),
        On 0 ''disconnected'', On 0 ''expired'', On 0 ''error'', GetData 0 (js ''/config'')] \<and>
   env_writes (snd (run_zookeeper 7 failing_decipher example_config
      (snd (run_zookeeper 7 failing_decipher example_config waiting_cycle_world))))
     = [(js ''A'', js ''1''), (js ''A'', js ''2'')]"
  by code_simp

section \<open>The connection cycle\<close>

text \<open>
  C6, as the code has it. No failure inside \<open>run\<close> rejects its promise, and
  \<open>run_zookeeper\<close> rejects only when the constructor throws. On a client that has its
  session object no error is left unhandled either; a client without one (the singleton
  that a throwing constructor leaves behind) fails at \<open>once\<close> in \<open>connect\<close> and then at
  \<open>close\<close> in \<open>retry\<close>, where nothing catches the error. When the connection attempt
  throws, the error is logged and \<open>retry\<close> is invoked; the handler that the failed
  attempt left on the session object can still resolve this \<open>run\<close> when a later attempt
  is connected, so nothing is said of its fate. When the registration of the handlers
  throws, or the first read throws or completes with an error, in a cycle that starts
  with no handler left over, the error is logged and \<open>retry\<close> is invoked; but the promise
  returned by \<open>run\<close> is not resolved afterwards, also when the retried cycle succeeds: it
  stays pending. The claim that it resolves fails when the first read completes with an
  error and the next cycle succeeds.
\<close>

theorem run_absorbs_failures_and_stays_pending:
  "fst (run n D this w) \<noteq> Rejected e \<and>
   (client this = Some h \<longrightarrow>
      unhandled_rejections (snd (run n D this w)) = unhandled_rejections w) \<and>
   (client that = None \<longrightarrow>
      run n D that w =
        (Pending, unhandled_rejection (Some (TypeError ''close''))
           (console_log ''ERROR'' (MessageOf (Some (TypeError ''once''))) ''connect'' w))) \<and>
   ((\<forall>inst. ZookeeperClient_instance wz = Some inst \<longrightarrow> client inst \<noteq> None) \<longrightarrow>
      unhandled_rejections (snd (run_zookeeper n D config wz)) = unhandled_rejections wz) \<and>
   (fst (run_zookeeper n D config wz) = Rejected r \<longrightarrow>
      (\<exists>e'. fst (constructor config wz) = Inl e')) \<and>
   (client this = Some h \<and> replies u = Throws m' # rs' \<longrightarrow>
      logged_and_retried h u (snd (run n D this u))) \<and>
   (client this = Some h \<and> idle_handlers v = 0 \<and> length (replies v) \<le> n \<and>
    (replies v = Connected # Throws m # rs
       \<or> replies v = Connected # Silent # Throws m # rs
       \<or> replies v = Connected # Silent # Completion_error m # rs) \<longrightarrow>
      logged_and_retried h v (snd (run n D this v)) \<and> fst (run n D this v) = Pending)"
proof -
  have a: "fst (run n D this w) \<noteq> Rejected e"
    by (rule run_never_rejected)
  have a': "unhandled_rejections (snd (run n D this w)) = unhandled_rejections w"
    if "client this = Some h"
    using that by (rule run_no_unhandled_rejection)
  have a'': "run n D that w =
        (Pending, unhandled_rejection (Some (TypeError ''close''))
           (console_log ''ERROR'' (MessageOf (Some (TypeError ''once''))) ''connect'' w))"
    if "client that = None"
    using that by (rule run_without_client)
  have b': "unhandled_rejections (snd (run_zookeeper n D config wz)) = unhandled_rejections wz"
    if i: "\<forall>inst. ZookeeperClient_instance wz = Some inst \<longrightarrow> client inst \<noteq> None"
  proof (cases "is_running_zookeeper wz")
    case True
    then show ?thesis by (simp add: run_zookeeper_def)
  next
    case False
    obtain c w1 where c: "constructor config wz = (c, w1)"
      by (cases "constructor config wz")
    with constructor_unhandled_rejections [of config wz]
    have u1: "unhandled_rejections w1 = unhandled_rejections wz" by simp
    show ?thesis
    proof (cases c)
      case (Inl x)
      with False c u1 show ?thesis
        by (simp add: run_zookeeper_def console_log_def)
    next
      case (Inr zc)
      with c i obtain h' where h': "client zc = Some h'"
        using constructor_client [of config wz zc w1] by blast
      obtain out w2 where o: "run n D zc w1 = (out, w2)"
        by (cases "run n D zc w1")
      with run_never_rejected [of n D zc w1] have nr: "\<And>x. out \<noteq> Rejected x" by auto
      from run_no_unhandled_rejection [OF h', of n D w1] o u1
      have "unhandled_rejections w2 = unhandled_rejections wz" by simp
      with False c Inr o nr show ?thesis
        by (cases out) (auto simp: run_zookeeper_def)
    qed
  qed
  have b: "\<exists>e'. fst (constructor config wz) = Inl e'"
    if "fst (run_zookeeper n D config wz) = Rejected r"
  proof (cases "fst (constructor config wz)")
    case (Inl e')
    then show ?thesis by blast
  next
    case (Inr zc)
    then obtain w1 where c: "constructor config wz = (Inr zc, w1)"
      by (cases "constructor config wz") simp
    obtain out w2 where o: "run n D zc w1 = (out, w2)"
      by (cases "run n D zc w1")
    with run_never_rejected [of n D zc w1] have "\<And>e. out \<noteq> Rejected e" by auto
    with that c o show ?thesis
      by (cases out) (auto simp: run_zookeeper_def split: if_splits)
  qed
  have t: "logged_and_retried h u (snd (run n D this u))"
    if "client this = Some h" and "replies u = Throws m' # rs'"
    using that by (rule run_connect_throws_logged_and_retried)
  have c: "logged_and_retried h v (snd (run n D this v)) \<and> fst (run n D this v) = Pending"
    if h: "client this = Some h" and i: "idle_handlers v = 0" and l: "length (replies v) \<le> n"
      and f: "replies v = Connected # Throws m # rs
        \<or> replies v = Connected # Silent # Throws m # rs
        \<or> replies v = Connected # Silent # Completion_error m # rs"
  proof -
    from run_failure_logged_and_retried [OF h i f, of n D]
    have "logged_and_retried h v (snd (run n D this v))" "fst (run n D this v) \<noteq> Resolved"
      by simp_all
    moreover have "fst (run n D this v) \<noteq> OutOfFuel"
      using h l by (rule run_enough_fuel)
    moreover have "fst (run n D this v) \<noteq> Rejected x" for x
      by (rule run_never_rejected)
    ultimately show ?thesis
      by (cases "fst (run n D this v)") auto
  qed
  from a a' a'' b' b t c show ?thesis by blast
qed

theorem run_absorbs_failures_and_stays_pending_witness:
  "client example_client = Some 0 \<and>
   unhandled_rejections (snd (run 6 failing_decipher example_client failing_read_world)) = [] \<and>
   client (example_client\<lparr>client := None\<rparr>) = None \<and>
   fst (run 6 failing_decipher (example_client\<lparr>client := None\<rparr>) failing_read_world) = Pending \<and>
   unhandled_rejections
     (snd (run 6 failing_decipher (example_client\<lparr>client := None\<rparr>) failing_read_world))
     = [Some (TypeError ''close'')] \<and>
   ZookeeperClient_instance refused_address_world = None \<and>
   unhandled_rejections
     (snd (run_zookeeper 6 failing_decipher example_config refused_address_world)) = [] \<and>
   fst (run_zookeeper 6 failing_decipher example_config refused_address_world) = Rejected None \<and>
   fst (constructor example_config refused_address_world) = Inl (Error (js ''bad address'')) \<and>
   replies throwing_connect_world = Throws (js ''boom'') #
     [Connected, Silent, Completion_data (Buffer (js ''A=1'')),
      Silent, Completion_data (Buffer (js ''A=2''))] \<and>
   logged_and_retried 0 throwing_connect_world
     (snd (run 6 failing_decipher example_client throwing_connect_world)) \<and>
   fst (run 6 failing_decipher example_client throwing_connect_world) = Resolved \<and>
   idle_handlers failing_read_world = 0 \<and> length (replies failing_read_world) \<le> 6 \<and>
   replies failing_read_world = Connected # Silent # Completion_error (js ''lost'') #
     [Connected, Silent, Completion_data (Buffer (js ''A=1''))] \<and>
   logged_and_retried 0 failing_read_world
     (snd (run 6 failing_decipher example_client failing_read_world)) \<and>
   fst (run 6 failing_decipher example_client failing_read_world) = Pending"
proof -
  have c: "fst (constructor example_config refused_address_world) = Inl (Error (js ''bad address''))"
    by (simp add: constructor_def createClient_def next_reply_def call_lib_def Let_def
        refused_address_world_def initial_world_def)
  have z: "fst (run_zookeeper 6 failing_decipher example_config refused_address_world)
      = Rejected None"
    by (simp add: run_zookeeper_def constructor_def createClient_def next_reply_def
        call_lib_def Let_def refused_address_world_def initial_world_def)
  have i: "ZookeeperClient_instance refused_address_world = None"
    "unhandled_rejections refused_address_world = []"
    by (simp_all add: refused_address_world_def initial_world_def)
  have h: "client example_client = Some 0" "client (example_client\<lparr>client := None\<rparr>) = None"
    by (simp_all add: example_client_def)
  have l: "length (replies failing_read_world) \<le> 6" "idle_handlers failing_read_world = 0"
    "unhandled_rejections failing_read_world = []" "console failing_read_world = []"
    by (simp_all add: failing_read_world_def initial_world_def)
  have f: "replies failing_read_world = Connected # Silent # Completion_error (js ''lost'') #
      [Connected, Silent, Completion_data (Buffer (js ''A=1''))]"
    by (simp add: failing_read_world_def initial_world_def)
  have t: "replies throwing_connect_world = Throws (js ''boom'') #
     [Connected, Silent, Completion_data (Buffer (js ''A=1'')),
      Silent, Completion_data (Buffer (js ''A=2''))]"
    by (simp add: throwing_connect_world_def initial_world_def)
  have s: "fst (run 6 failing_decipher example_client throwing_connect_world) = Resolved"
    by code_simp
  from run_absorbs_failures_and_stays_pending
    [where n = 6 and D = failing_decipher and this = example_client
      and w = failing_read_world and h = 0 and that = "example_client\<lparr>client := None\<rparr>"
      and config = example_config and wz = refused_address_world and r = None
      and u = throwing_connect_world and m' = "js ''boom''"
      and rs' = "[Connected, Silent, Completion_data (Buffer (js ''A=1'')),
          Silent, Completion_data (Buffer (js ''A=2''))]"
      and v = failing_read_world and m = "js ''lost''"
      and rs = "[Connected, Silent, Completion_data (Buffer (js ''A=1''))]"]
    c z i h l f t s
  show ?thesis
    by (simp add: unhandled_rejection_def console_log_def)
qed

theorem run_resolves_after_retry_counterexample:
  "fst (run 6 failing_decipher example_client failing_read_world) = Pending \<and>
   env (snd (run 6 failing_decipher example_client failing_read_world)) (js ''A'')
     = Some (js ''1'') \<and>
   map level (console (snd (run 6 failing_decipher example_client failing_read_world)))
     = [''INFO'', ''ERROR'', ''INFO'', ''INFO'', ''INFO''] \<and>
   map description (console (snd (run 6 failing_decipher example_client failing_read_world)))
     = ['''', ''error event received in get data'', '''', '''', ''''] \<and>
   message (last (console (snd (run 6 failing_decipher example_client failing_read_world))))
     = Literal ''parsed data''"
  by code_simp

text \<open>
  C7, as the code has it. On every retry, also one started by the \<open>expired\<close> handler,
  \<open>close\<close> is called on the session object of the client and the new cycle then registers
  the \<open>connected\<close> handler and connects on that same object: every library call of the
  retry is a call on it, no session object is created, and the singleton is as it was.
  The claim that a new session replaces the closed one fails for a client that is
  started and then receives \<open>expired\<close>.
\<close>

theorem retry_reuses_closed_session:
  assumes "client this = Some h"
  shows "(\<exists>cs. calls (snd (retry (Suc n) D this w))
              = calls w @ Close h # Once_connected h # Connect h # cs \<and>
            list_all (session_call h) cs) \<and>
         handles (snd (retry (Suc n) D this w)) = handles w \<and>
         ZookeeperClient_instance (snd (retry (Suc n) D this w)) = ZookeeperClient_instance w \<and>
         (\<exists>cs. calls (snd (on_expired (Suc n) D this w))
              = calls w @ Close h # Once_connected h # Connect h # cs \<and>
            list_all (session_call h) cs) \<and>
         handles (snd (on_expired (Suc n) D this w)) = handles w \<and>
         ZookeeperClient_instance (snd (on_expired (Suc n) D this w)) = ZookeeperClient_instance w"
proof -
  have r: "(\<exists>cs. calls (snd (retry (Suc n) D this v))
              = calls v @ Close h # Once_connected h # Connect h # cs \<and>
            list_all (session_call h) cs) \<and>
         handles (snd (retry (Suc n) D this v)) = handles v \<and>
         ZookeeperClient_instance (snd (retry (Suc n) D this v)) = ZookeeperClient_instance v"
    for v
  proof -
    let ?w0 = "call_lib [Close h] v"
    let ?w' = "snd (run n D this ?w0)"
    have s: "same_session h (call_lib [Once_connected h, Connect h] ?w0) ?w'"
      using run_same_session [OF assms] retry_same_session [OF assms] by blast
    have "call_lib [Once_connected h, Connect h] ?w0
        = call_lib [Close h, Once_connected h, Connect h] v"
      by (simp add: call_lib_def)
    with s have s': "same_session h (call_lib [Close h, Once_connected h, Connect h] v) ?w'"
      by simp
    from same_session_after_calls [OF s'] obtain cs
      where "calls ?w' = calls v @ [Close h, Once_connected h, Connect h] @ cs"
        "list_all (session_call h) cs"
      by blast
    moreover from s' have "handles ?w' = handles v"
      "ZookeeperClient_instance ?w' = ZookeeperClient_instance v"
      by (simp_all add: same_session_def call_lib_def)
    ultimately show ?thesis
      using snd_retry_Suc [OF assms, of n D v] by simp
  qed
  from r [of w] r [of "console_log ''INFO'' (Literal ''zookeeper session expired'') [] w"]
  show ?thesis
    by (simp add: on_expired_def console_log_def)
qed

theorem retry_reuses_closed_session_witness:
  "client example_client = Some 0 \<and>
   calls (snd (retry (Suc 0) failing_decipher example_client
      (initial_world\<lparr>replies := [Connected, Silent, Completion_data (Buffer (js ''A=2''))]\<rparr>)))
     = [Close 0, Once_connected 0, Connect 0, On 0 ''disconnected'', On 0 ''expired'',
        On 0 ''error'', GetData 0 (js ''/config'')] \<and>
   handles (snd (retry (Suc 0) failing_decipher example_client
      (initial_world\<lparr>replies := [Connected, Silent, Completion_data (Buffer (js ''A=2''))]\<rparr>))) = 0"
proof -
  have h: "client example_client = Some 0"
    by (simp add: example_client_def)
  have c: "calls (snd (retry (Suc 0) failing_decipher example_client
      (initial_world\<lparr>replies := [Connected, Silent, Completion_data (Buffer (js ''A=2''))]\<rparr>)))
     = [Close 0, Once_connected 0, Connect 0, On 0 ''disconnected'', On 0 ''expired'',
        On 0 ''error'', GetData 0 (js ''/config'')]"
    by code_simp
  from retry_reuses_closed_session [OF h, of 0 failing_decipher
      "initial_world\<lparr>replies := [Connected, Silent, Completion_data (Buffer (js ''A=2''))]\<rparr>"] h c
  show ?thesis by (simp add: initial_world_def)
qed

theorem retry_new_session_counterexample:
  "calls (snd (on_expired 4 failing_decipher example_client
      (snd (run_zookeeper 4 failing_decipher example_config two_cycles_world))))
     = [CreateClient 0 (js ''localhost:2181''), AddAuthInfo 0 (js ''user:secret''),
        Once_connected 0, Connect 0, On 0 ''disconnected'', On 0 ''expired'', On 0 ''error'',
        GetData 0 (js ''/config''),
        Close 0,
        Once_connected 0, Connect 0, On 0 ''disconnected'', On 0 ''expired'', On 0 ''error'',
        GetData 0 (js ''/config'')] \<and>
   handles (snd (on_expired 4 failing_decipher example_client
      (snd (run_zookeeper 4 failing_decipher example_config two_cycles_world)))) = 1 \<and>
   ZookeeperClient_instance (snd (run_zookeeper 4 failing_decipher example_config
      two_cycles_world)) = Some example_client"
  by code_simp

text \<open>
  C8, as the code has it. When the watcher fires with a notification of type 3 named
  \<open>NODE_DATA_CHANGED\<close>, it logs the notification and calls \<open>fetch_config\<close> once: one
  \<open>getData\<close> on the watched path, which carries the fresh watcher, is the first library
  call made. It is the only one when that read neither throws nor completes with an
  error; when it does, \<open>retry\<close> closes the session and starts a new cycle, and the reads
  of that cycle follow. For any other notification the watcher only logs it: no read, no
  library call. The claim that every such firing leads to exactly one read fails when the
  read made by the watcher completes with an error and the retried cycle reads again.
\<close>

theorem watch_callback_refetches_on_data_change_only:
  assumes "client this = Some h"
  shows "(ev_type event = 3 \<and> ev_name event = js ''NODE_DATA_CHANGED'' \<longrightarrow>
            watch_callback n D this event w
              = fetch_config n D this
                  (console_log ''INFO'' (Json event) ''event received in get data'' w) \<and>
            (\<exists>cs. calls (snd (watch_callback n D this event w))
                 = calls w @ GetData h (path this) # cs \<and>
               list_all (session_call h) cs \<and>
               (cs = [] \<or> (\<exists>cs'. cs = Close h # cs')) \<and>
               ((\<forall>m. fst (next_reply w) \<noteq> Throws m) \<and>
                (\<forall>m. fst (next_reply w) \<noteq> Completion_error m) \<longrightarrow> cs = []) \<and>
               ((\<exists>m. fst (next_reply w) = Throws m) \<or>
                (\<exists>m. fst (next_reply w) = Completion_error m) \<longrightarrow>
                  (\<exists>cs'. cs = Close h # cs')))) \<and>
         (\<not> (ev_type event = 3 \<and> ev_name event = js ''NODE_DATA_CHANGED'') \<longrightarrow>
            watch_callback n D this event w
              = (Resolved, console_log ''INFO'' (Json event) ''event received in get data'' w))"
proof -
  let ?w1 = "console_log ''INFO'' (Json event) ''event received in get data'' w"
  from fetch_config_calls [OF assms, of n D ?w1] obtain cs
    where "calls (snd (fetch_config n D this ?w1)) = calls ?w1 @ GetData h (path this) # cs"
      "list_all (session_call h) cs"
      "cs = [] \<or> (\<exists>cs'. cs = Close h # cs')"
      "(\<forall>m. fst (next_reply ?w1) \<noteq> Throws m) \<and>
       (\<forall>m. fst (next_reply ?w1) \<noteq> Completion_error m) \<longrightarrow> cs = []"
      "(\<exists>m. fst (next_reply ?w1) = Throws m) \<or>
       (\<exists>m. fst (next_reply ?w1) = Completion_error m) \<longrightarrow> (\<exists>cs'. cs = Close h # cs')"
    by blast
  moreover have "calls ?w1 = calls w" "fst (next_reply ?w1) = fst (next_reply w)"
    by (simp_all add: console_log_def next_reply_def split: list.splits)
  ultimately have "\<exists>cs. calls (snd (fetch_config n D this ?w1))
                 = calls w @ GetData h (path this) # cs \<and>
               list_all (session_call h) cs \<and>
               (cs = [] \<or> (\<exists>cs'. cs = Close h # cs')) \<and>
               ((\<forall>m. fst (next_reply w) \<noteq> Throws m) \<and>
                (\<forall>m. fst (next_reply w) \<noteq> Completion_error m) \<longrightarrow> cs = []) \<and>
               ((\<exists>m. fst (next_reply w) = Throws m) \<or>
                (\<exists>m. fst (next_reply w) = Completion_error m) \<longrightarrow>
                  (\<exists>cs'. cs = Close h # cs'))"
    by (simp only:) blast
  then show ?thesis
    by (simp add: watch_callback_def Let_def)
qed

theorem watch_callback_refetches_on_data_change_only_witness:
  "client example_client = Some 0 \<and>
   ev_type data_changed = 3 \<and> ev_name data_changed = js ''NODE_DATA_CHANGED'' \<and>
   calls (snd (watch_callback 1 failing_decipher example_client data_changed
      (initial_world\<lparr>replies := [Completion_data (Buffer (js ''A=2''))]\<rparr>)))
     = [GetData 0 (js ''/config'')] \<and>
   \<not> (ev_type node_deleted = 3 \<and> ev_name node_deleted = js ''NODE_DATA_CHANGED'') \<and>
   calls (snd (watch_callback 1 failing_decipher example_client node_deleted
      (initial_world\<lparr>replies := [Completion_data (Buffer (js ''A=2''))]\<rparr>))) = []"
proof -
  let ?w = "initial_world\<lparr>replies := [Completion_data (Buffer (js ''A=2''))]\<rparr>"
  have h: "client example_client = Some 0"
    by (simp add: example_client_def)
  have d: "ev_type data_changed = 3 \<and> ev_name data_changed = js ''NODE_DATA_CHANGED''"
    by (simp add: data_changed_def)
  have n: "\<not> (ev_type node_deleted = 3 \<and> ev_name node_deleted = js ''NODE_DATA_CHANGED'')"
    by (simp add: node_deleted_def)
  have r: "fst (next_reply ?w) = Completion_data (Buffer (js ''A=2''))"
    by (simp add: next_reply_def initial_world_def)
  from watch_callback_refetches_on_data_change_only
      [OF h, of data_changed 1 failing_decipher ?w] d r
  have "calls (snd (watch_callback 1 failing_decipher example_client data_changed ?w))
      = [GetData 0 (js ''/config'')]"
    by (auto simp: initial_world_def example_client_def)
  moreover from watch_callback_refetches_on_data_change_only
      [OF h, of node_deleted 1 failing_decipher ?w] n
  have "calls (snd (watch_callback 1 failing_decipher example_client node_deleted ?w)) = []"
    by (simp add: console_log_def initial_world_def)
  ultimately show ?thesis using h d n by blast
qed

theorem watch_callback_single_read_counterexample:
  "ev_type data_changed = 3 \<and> ev_name data_changed = js ''NODE_DATA_CHANGED'' \<and>
   replies failing_refetch_world
     = [Completion_error (js ''lost''), Connected, Silent, Completion_data (Buffer (js ''A=2''))] \<and>
   calls failing_refetch_world = [] \<and>
   calls (snd (watch_callback 8 failing_decipher example_client data_changed
      failing_refetch_world))
     = [GetData 0 (js ''/config''), Close 0, Once_connected 0, Connect 0,
        On 0 ''disconnected'', On 0 ''expired'', On 0 ''error'', GetData 0 (js ''/config'')] \<and>
   env (snd (watch_callback 8 failing_decipher example_client data_changed
      failing_refetch_world)) (js ''A'') = Some (js ''2'')"
  by code_simp

section \<open>The module flag\<close>

text \<open>
  C9. The flag \<open>is_running_zookeeper\<close> is tested and never set: while a first cycle is in
  flight (its connection not yet confirmed), a second invocation of \<open>run_zookeeper\<close> finds
  the flag still false, goes through the constructor and \<open>run\<close>, and starts a second
  connection attempt on the session object of the singleton.
\<close>

theorem run_zookeeper_second_invocation_starts_second_cycle:
  "fst (run_zookeeper 1 failing_decipher example_config initial_world) = Pending \<and>
   is_running_zookeeper (snd (run_zookeeper 1 failing_decipher example_config initial_world))
     = False \<and>
   fst (run_zookeeper 1 failing_decipher other_config
      (snd (run_zookeeper 1 failing_decipher example_config initial_world))) = Pending \<and>
   calls (snd (run_zookeeper 1 failing_decipher other_config
      (snd (run_zookeeper 1 failing_decipher example_config initial_world))))
     = [CreateClient 0 (js ''localhost:2181''), AddAuthInfo 0 (js ''user:secret''),
        Once_connected 0, Connect 0, Once_connected 0, Connect 0]"
  by code_simp

end
